theory Spec2Isabelle
  imports Main "HOL-Library.AList"
begin

section \<open>VanillaQuery: the query and mutation lifecycle engine\<close>

text \<open>
  A shallow embedding of the class \<^verbatim>\<open>VanillaQuery\<close> (the engine file of the repository).
  The five private tables of the class are fields of the record \<open>vq\<close>; the JavaScript
  environment the class talks to (the clock behind \<^verbatim>\<open>Date.now()\<close>, the timers of
  \<^verbatim>\<open>setInterval\<close> and \<^verbatim>\<open>setTimeout\<close>, the focus listeners of \<^verbatim>\<open>window\<close>) is
  further fields of the same record, and every method takes the record and returns it
  updated. Calls to functions supplied by the caller (subscriber callbacks, lifecycle
  callbacks) are appended to a trace, in the order the code makes them.

  An \<^verbatim>\<open>async\<close> method runs here from its call to the settling of its promise in one
  step: the model has no interleaving of two fetches in flight. The caller's functions
  are observers: a callback returns or throws, a delay function returns a number, and
  none of them calls back into the engine.
\<close>

subsection \<open>JavaScript values\<close>

text \<open>
  Query data and errors have the type \<^verbatim>\<open>any\<close>. The code branches on their truthiness
  (\<^verbatim>\<open>currentState?.data ? ... : ...\<close>, \<^verbatim>\<open>result.error || null\<close>,
  \<^verbatim>\<open>result.success && resultData\<close>), so the values keep their JavaScript kind.
  Numbers are integers here; arrays and objects are always truthy.
\<close>

datatype jsval =
    JUndefined
  | JNull
  | JBool bool
  | JNum int
  | JStr string
  | JArr "jsval list"
  | JObj "(string \<times> jsval) list"

fun truthy :: "jsval \<Rightarrow> bool" where
  "truthy JUndefined = False"
| "truthy JNull = False"
| "truthy (JBool b) = b"
| "truthy (JNum n) = (n \<noteq> 0)"
| "truthy (JStr s) = (s \<noteq> [])"
| "truthy (JArr xs) = True"
| "truthy (JObj fs) = True"

text \<open>How a promise settles; also what one call of an asynchronous producer yields.\<close>

datatype settled = Resolved jsval | Rejected jsval

text \<open>
  What one call of a lifecycle callback does: it returns a value or throws one (for the
  awaited callbacks of a mutation, throwing stands for a rejected promise as well).
\<close>

datatype callback = Returns jsval | Throws jsval

text \<open>
  A caller-supplied asynchronous function is a stateful object, like a test mock:
  \<open>outcomes p i\<close> is how its call number \<open>i\<close> settles (counting from 0), and
  \<open>called p\<close> counts the calls made so far.
\<close>

record producer =
  outcomes :: "nat \<Rightarrow> settled"
  called :: nat

definition invoke :: "producer \<Rightarrow> settled \<times> producer" where
  "invoke p = (outcomes p (called p), p\<lparr>called := called p + 1\<rparr>)"

subsection \<open>The data model\<close>

type_synonym key = string

datatype status = Idle | Loading | Success | Error

datatype retryOption = RetryBool bool | RetryNum int

datatype delayOption = DelayMs int | DelayFn "nat \<Rightarrow> int"

text \<open>\<^verbatim>\<open>Required<QueryOptions>\<close>; a callback that is \<^verbatim>\<open>null\<close> is \<open>None\<close>, and
  \<^verbatim>\<open>refetchInterval: false\<close> is \<open>None\<close>.\<close>

record queryOptions =
  enabled :: bool
  staleTime :: int
  cacheTime :: int
  retry :: retryOption
  retryDelay :: delayOption
  onSuccess :: "callback option"
  onError :: "callback option"
  onSettled :: "callback option"
  refetchOnWindowFocus :: bool
  refetchInterval :: "int option"
  refetchIntervalInBackground :: bool
  keepPreviousData :: bool

text \<open>The options object a caller passes: the fields it sets, in the order it sets them.\<close>

datatype optionField =
    Enabled bool
  | StaleTime int
  | CacheTime int
  | Retry retryOption
  | RetryDelay delayOption
  | OnSuccess "callback option"
  | OnError "callback option"
  | OnSettled "callback option"
  | RefetchOnWindowFocus bool
  | RefetchInterval "int option"
  | RefetchIntervalInBackground bool
  | KeepPreviousData bool

text \<open>\<^verbatim>\<open>QueryState\<close>; the three fields marked \<^verbatim>\<open>?\<close> in the interface are optional.\<close>

record queryState =
  data :: jsval
  error :: jsval
  status :: status
  isLoading :: bool
  isError :: bool
  isSuccess :: bool
  isFetching :: bool
  dataUpdatedAt :: "nat option"
  errorUpdatedAt :: "nat option"
  fetchCount :: "nat option"

record cacheEntry =
  entryData :: jsval
  timestamp :: nat

record queryConfig =
  queryFn :: producer
  options :: queryOptions

text \<open>What the caller's functions were called with, in order.\<close>

datatype event =
    Notify nat queryState
  | CalledOnSuccess key jsval
  | CalledOnError key jsval
  | CalledOnSettled key jsval jsval

text \<open>
  The engine and its environment. A subscriber callback is known by its identity (a
  number); \<^verbatim>\<open>Set\<close> and \<^verbatim>\<open>Map\<close> iterate in insertion order, so the two tables the
  code iterates over are association lists.
\<close>

record vq =
  cache :: "key \<rightharpoonup> cacheEntry"
  subscribers :: "(key \<times> nat list) list"
  queryConfigs :: "key \<rightharpoonup> queryConfig"
  queryStates :: "key \<rightharpoonup> queryState"
  intervals :: "(key \<times> nat) list option"
  now :: nat
  timers :: "(nat \<times> key) list"
  nextTimer :: nat
  timeouts :: "key list"
  hasWindow :: bool
  focusListeners :: "(key \<times> bool) list"
  trace :: "event list"

text \<open>\<^verbatim>\<open>new VanillaQuery()\<close> at time \<open>t\<close>; \<^verbatim>\<open>intervals\<close> is not assigned by the constructor.\<close>

definition newVanillaQuery :: "nat \<Rightarrow> bool \<Rightarrow> vq" where
  "newVanillaQuery t win =
     \<lparr>cache = Map.empty, subscribers = [], queryConfigs = Map.empty,
      queryStates = Map.empty, intervals = None, now = t, timers = [], nextTimer = 0,
      timeouts = [], hasWindow = win, focusListeners = [], trace = []\<rparr>"

subsection \<open>Option defaulting\<close>

definition defaultRetryDelay :: "nat \<Rightarrow> int" where
  "defaultRetryDelay attempt = min (1000 * 2 ^ attempt) 30000"

definition defaultOptions :: queryOptions where
  "defaultOptions =
     \<lparr>enabled = True, staleTime = 0, cacheTime = 5 * 60 * 1000, retry = RetryNum 3,
      retryDelay = DelayFn defaultRetryDelay, onSuccess = None, onError = None,
      onSettled = None, refetchOnWindowFocus = True, refetchInterval = None,
      refetchIntervalInBackground = False, keepPreviousData = False\<rparr>"

fun setOption :: "queryOptions \<Rightarrow> optionField \<Rightarrow> queryOptions" where
  "setOption opts (Enabled b) = opts\<lparr>enabled := b\<rparr>"
| "setOption opts (StaleTime n) = opts\<lparr>staleTime := n\<rparr>"
| "setOption opts (CacheTime n) = opts\<lparr>cacheTime := n\<rparr>"
| "setOption opts (Retry r) = opts\<lparr>retry := r\<rparr>"
| "setOption opts (RetryDelay d) = opts\<lparr>retryDelay := d\<rparr>"
| "setOption opts (OnSuccess c) = opts\<lparr>onSuccess := c\<rparr>"
| "setOption opts (OnError c) = opts\<lparr>onError := c\<rparr>"
| "setOption opts (OnSettled c) = opts\<lparr>onSettled := c\<rparr>"
| "setOption opts (RefetchOnWindowFocus b) = opts\<lparr>refetchOnWindowFocus := b\<rparr>"
| "setOption opts (RefetchInterval i) = opts\<lparr>refetchInterval := i\<rparr>"
| "setOption opts (RefetchIntervalInBackground b) = opts\<lparr>refetchIntervalInBackground := b\<rparr>"
| "setOption opts (KeepPreviousData b) = opts\<lparr>keepPreviousData := b\<rparr>"

text \<open>\<^verbatim>\<open>{ ...defaultOptions, ...options }\<close>: a field the caller sets wins.\<close>

definition finalOptions :: "optionField list \<Rightarrow> queryOptions" where
  "finalOptions given = foldl setOption defaultOptions given"

subsection \<open>Subscribers\<close>

text \<open>\<^verbatim>\<open>this.queryStates.get(queryKey) || { ...idle... }\<close>: the default has no timestamps
  and no fetch count.\<close>

definition idleState :: queryState where
  "idleState =
     \<lparr>data = JUndefined, error = JNull, status = Idle, isLoading = False,
      isError = False, isSuccess = False, isFetching = False,
      dataUpdatedAt = None, errorUpdatedAt = None, fetchCount = None\<rparr>"

definition getQueryState :: "vq \<Rightarrow> key \<Rightarrow> queryState" where
  "getQueryState w k = (case queryStates w k of Some st \<Rightarrow> st | None \<Rightarrow> idleState)"

text \<open>An exception of a subscriber callback is caught and logged at the call, so the
  engine goes on whatever the callback does.\<close>

definition notifySubscribers :: "key \<Rightarrow> queryState \<Rightarrow> vq \<Rightarrow> vq" where
  "notifySubscribers k st w =
     (case map_of (subscribers w) k of
        None \<Rightarrow> w
      | Some cbs \<Rightarrow> w\<lparr>trace := trace w @ map (\<lambda>cb. Notify cb st) cbs\<rparr>)"

definition subscribeToQuery :: "key \<Rightarrow> nat \<Rightarrow> vq \<Rightarrow> vq" where
  "subscribeToQuery k cb w =
     (let cbs = (case map_of (subscribers w) k of None \<Rightarrow> [] | Some cbs \<Rightarrow> cbs);
          cbs' = (if cb \<in> set cbs then cbs else cbs @ [cb])
      in w\<lparr>subscribers := AList.update k cbs' (subscribers w),
            trace := trace w @ [Notify cb (getQueryState w k)]\<rparr>)"

text \<open>The function \<^verbatim>\<open>subscribeToQuery\<close> returns.\<close>

definition unsubscribe :: "key \<Rightarrow> nat \<Rightarrow> vq \<Rightarrow> vq" where
  "unsubscribe k cb w =
     (case map_of (subscribers w) k of
        None \<Rightarrow> w
      | Some cbs \<Rightarrow> w\<lparr>subscribers := AList.update k (removeAll cb cbs) (subscribers w)\<rparr>)"

subsection \<open>Timers\<close>

text \<open>The running interval timers of the environment, each with its handle and the key
  its task fetches. Handles are given out in order.\<close>

definition setInterval :: "key \<Rightarrow> vq \<Rightarrow> nat \<times> vq" where
  "setInterval k w =
     (nextTimer w, w\<lparr>timers := timers w @ [(nextTimer w, k)], nextTimer := nextTimer w + 1\<rparr>)"

definition clearInterval :: "nat \<Rightarrow> vq \<Rightarrow> vq" where
  "clearInterval h w = w\<lparr>timers := filter (\<lambda>(h', k). h' \<noteq> h) (timers w)\<rparr>"

subsection \<open>Registration\<close>

text \<open>\<^verbatim>\<open>useQuery\<close> returns an object of closures over the key; the model returns the engine.
  The deferred fetch is a task in \<open>timeouts\<close>, the focus listener remembers the key and
  \<^verbatim>\<open>finalOptions.enabled\<close>, and the interval is a running timer whose handle is stored in
  \<^verbatim>\<open>intervals\<close> under the key. A \<^verbatim>\<open>refetchInterval\<close> of \<^verbatim>\<open>false\<close> or \<^verbatim>\<open>0\<close> starts no timer.\<close>

definition useQuery :: "key \<Rightarrow> producer \<Rightarrow> optionField list \<Rightarrow> vq \<Rightarrow> vq" where
  "useQuery k fn given w =
     (let opts = finalOptions given;
          w1 = w\<lparr>queryConfigs := (queryConfigs w)(k \<mapsto> \<lparr>queryFn = fn, options = opts\<rparr>)\<rparr>;
          w2 = (if queryStates w1 k = None
                then w1\<lparr>queryStates := (queryStates w1)(k \<mapsto>
                       idleState\<lparr>dataUpdatedAt := Some 0, errorUpdatedAt := Some 0,
                                 fetchCount := Some 0\<rparr>)\<rparr>
                else w1);
          w3 = (if enabled opts then w2\<lparr>timeouts := timeouts w2 @ [k]\<rparr> else w2);
          w4 = (if refetchOnWindowFocus opts \<and> hasWindow w3
                then w3\<lparr>focusListeners := focusListeners w3 @ [(k, enabled opts)]\<rparr>
                else w3)
      in (if (case refetchInterval opts of None \<Rightarrow> False | Some ms \<Rightarrow> ms \<noteq> 0) \<and> enabled opts
          then (let (intervalId, w5) = setInterval k w4;
                    table = (case intervals w5 of None \<Rightarrow> [] | Some t \<Rightarrow> t)
                in w5\<lparr>intervals := Some (AList.update k intervalId table)\<rparr>)
          else w4))"

subsection \<open>Fetching with retries\<close>

fun success :: "settled \<Rightarrow> bool" where
  "success (Resolved d) = True"
| "success (Rejected e) = False"

definition maxRetries :: "retryOption \<Rightarrow> int" where
  "maxRetries r = (case r of RetryBool b \<Rightarrow> (if b then 3 else 0) | RetryNum n \<Rightarrow> n)"

definition delayFor :: "delayOption \<Rightarrow> nat \<Rightarrow> int" where
  "delayFor d attempt = (case d of DelayFn f \<Rightarrow> f attempt | DelayMs ms \<Rightarrow> ms)"

text \<open>
  \<^verbatim>\<open>while (!result.success && attempt < maxRetries) { attempt++; await delay; result = await performFetch() }\<close>.
  The loop carries the last result, the attempt counter, the producer and the time
  waited so far; a negative delay waits no time.
\<close>

function retryLoop ::
  "int \<Rightarrow> delayOption \<Rightarrow> settled \<Rightarrow> nat \<Rightarrow> producer \<Rightarrow> nat \<Rightarrow> settled \<times> producer \<times> nat" where
  "retryLoop budget d result attempt fn waited =
     (if \<not> success result \<and> int attempt < budget
      then (let attempt' = attempt + 1;
                waited' = waited + nat (delayFor d attempt');
                (result', fn') = invoke fn
            in retryLoop budget d result' attempt' fn' waited')
      else (result, fn, waited))"
  by pat_completeness auto
termination
  by (relation "measure (\<lambda>(budget, d, result, attempt, fn, waited). nat (budget - int attempt))") auto

text \<open>"Perform fetch with retries" (and, in \<^verbatim>\<open>mutate\<close>, "Perform mutation with retries"):
  one call, then the loop. The result is the last outcome, the producer after its calls
  and the time waited between them.\<close>

definition performWithRetries :: "int \<Rightarrow> delayOption \<Rightarrow> producer \<Rightarrow> settled \<times> producer \<times> nat" where
  "performWithRetries budget d fn =
     (let (first, fn1) = invoke fn in retryLoop budget d first 0 fn1 0)"

text \<open>\<^verbatim>\<open>if (cb) cb(...)\<close> for each callback in turn: the first one that throws ends the
  sequence. The result is the calls made and the value thrown, if any.\<close>

fun runCallbacks :: "(callback option \<times> 'e) list \<Rightarrow> 'e list \<times> jsval option" where
  "runCallbacks [] = ([], None)"
| "runCallbacks ((None, ev) # rest) = runCallbacks rest"
| "runCallbacks ((Some (Returns v), ev) # rest) =
     (let (evs, thrown) = runCallbacks rest in (ev # evs, thrown))"
| "runCallbacks ((Some (Throws e), ev) # rest) = ([ev], Some e)"

text \<open>A callback that is configured and throws when called.\<close>

fun throws :: "callback option \<Rightarrow> bool" where
  "throws (Some (Throws e)) = True"
| "throws c = False"

text \<open>The state written before the producer is called (\<^verbatim>\<open>newState\<close>).\<close>

definition loadingState :: "queryState \<Rightarrow> queryState" where
  "loadingState currentState =
     currentState\<lparr>status := (if truthy (data currentState) then Success else Loading),
                  isLoading := \<not> truthy (data currentState),
                  isFetching := True,
                  fetchCount := Some ((case fetchCount currentState of None \<Rightarrow> 0 | Some n \<Rightarrow> n) + 1)\<rparr>"

text \<open>The branch \<^verbatim>\<open>if (result.success)\<close> of \<^verbatim>\<open>fetchQuery\<close>: \<^verbatim>\<open>successState\<close> is an object
  literal with eight fields; the cache and the state are written and the subscribers
  told before \<^verbatim>\<open>onSuccess\<close> and \<^verbatim>\<open>onSettled\<close> run. A callback that throws rejects the
  promise.\<close>

definition settleSuccess :: "key \<Rightarrow> queryOptions \<Rightarrow> jsval \<Rightarrow> vq \<Rightarrow> settled \<times> vq" where
  "settleSuccess k opts d w =
     (let successState =
            \<lparr>data = d, error = JNull, status = Success, isLoading = False,
             isError = False, isSuccess = True, isFetching = False,
             dataUpdatedAt = Some (now w), errorUpdatedAt = None, fetchCount = None\<rparr>;
          w1 = w\<lparr>cache := (cache w)(k \<mapsto> \<lparr>entryData = d, timestamp = now w\<rparr>)\<rparr>;
          w2 = notifySubscribers k successState
                 (w1\<lparr>queryStates := (queryStates w1)(k \<mapsto> successState)\<rparr>);
          (evs, thrown) = runCallbacks
             [(onSuccess opts, CalledOnSuccess k d), (onSettled opts, CalledOnSettled k d JNull)]
      in ((case thrown of None \<Rightarrow> Resolved d | Some e \<Rightarrow> Rejected e),
          w2\<lparr>trace := trace w2 @ evs\<rparr>))"

text \<open>The \<^verbatim>\<open>else\<close> branch: \<^verbatim>\<open>errorState\<close> spreads \<^verbatim>\<open>newState\<close>, the cache is not touched, and
  the callbacks run only for a truthy error (\<^verbatim>\<open>if (result.error)\<close>).\<close>

definition settleError :: "key \<Rightarrow> queryOptions \<Rightarrow> queryState \<Rightarrow> jsval \<Rightarrow> vq \<Rightarrow> settled \<times> vq" where
  "settleError k opts newState e w =
     (let errorState =
            newState\<lparr>status := Error, error := (if truthy e then e else JNull),
                     isLoading := False, isError := True, isSuccess := False,
                     isFetching := False, errorUpdatedAt := Some (now w)\<rparr>;
          w1 = notifySubscribers k errorState
                 (w\<lparr>queryStates := (queryStates w)(k \<mapsto> errorState)\<rparr>);
          (evs, thrown) =
             (if truthy e
              then runCallbacks
                [(onError opts, CalledOnError k e), (onSettled opts, CalledOnSettled k JUndefined e)]
              else ([], None))
      in ((case thrown of None \<Rightarrow> Resolved JUndefined | Some e' \<Rightarrow> Rejected e'),
          w1\<lparr>trace := trace w1 @ evs\<rparr>))"

text \<open>\<^verbatim>\<open>fetchQuery\<close>. The two early returns resolve with \<^verbatim>\<open>undefined\<close>. The producer
  after its calls is put back into the config: that is the call counter of the
  producer object, not a write of the source to \<^verbatim>\<open>queryConfigs\<close>.\<close>

definition fetchQuery :: "key \<Rightarrow> vq \<Rightarrow> settled \<times> vq" where
  "fetchQuery k w =
     (case queryConfigs w k of
        None \<Rightarrow> (Resolved JUndefined, w)
      | Some config \<Rightarrow>
         (case queryStates w k of
            None \<Rightarrow> (Resolved JUndefined, w)
          | Some currentState \<Rightarrow>
             (let opts = options config;
                  newState = loadingState currentState;
                  w1 = notifySubscribers k newState
                         (w\<lparr>queryStates := (queryStates w)(k \<mapsto> newState)\<rparr>);
                  (result, fn2, waited) =
                     performWithRetries (maxRetries (retry opts)) (retryDelay opts) (queryFn config);
                  w2 = w1\<lparr>queryConfigs := (queryConfigs w1)(k \<mapsto> config\<lparr>queryFn := fn2\<rparr>),
                          now := now w1 + waited\<rparr>
              in (case result of
                    Resolved d \<Rightarrow> settleSuccess k opts d w2
                  | Rejected e \<Rightarrow> settleError k opts newState e w2))))"

definition refetchQuery :: "key \<Rightarrow> vq \<Rightarrow> settled \<times> vq" where
  "refetchQuery k w = fetchQuery k w"

definition cancelQuery :: "key \<Rightarrow> vq \<Rightarrow> vq" where
  "cancelQuery k w =
     (case queryStates w k of
        None \<Rightarrow> w
      | Some st \<Rightarrow>
          (if isFetching st
           then (let cancelledState = st\<lparr>isFetching := False\<rparr>
                 in notifySubscribers k cancelledState
                      (w\<lparr>queryStates := (queryStates w)(k \<mapsto> cancelledState)\<rparr>))
           else w))"

definition invalidateQuery :: "key \<Rightarrow> vq \<Rightarrow> settled \<times> vq" where
  "invalidateQuery k w = fetchQuery k (w\<lparr>cache := (cache w)(k := None)\<rparr>)"

definition prefetchQuery :: "key \<Rightarrow> producer \<Rightarrow> optionField list \<Rightarrow> vq \<Rightarrow> settled \<times> vq" where
  "prefetchQuery k fn given w =
     fetchQuery k
       (w\<lparr>queryConfigs := (queryConfigs w)(k \<mapsto> \<lparr>queryFn = fn, options = finalOptions given\<rparr>)\<rparr>)"

subsection \<open>The cache\<close>

definition getQueryData :: "vq \<Rightarrow> key \<Rightarrow> jsval" where
  "getQueryData w k = (case cache w k of Some cached \<Rightarrow> entryData cached | None \<Rightarrow> JUndefined)"

definition setQueryData :: "key \<Rightarrow> jsval \<Rightarrow> vq \<Rightarrow> jsval \<times> vq" where
  "setQueryData k d w =
     (let w1 = w\<lparr>cache := (cache w)(k \<mapsto> \<lparr>entryData = d, timestamp = now w\<rparr>)\<rparr>;
          newState =
            \<lparr>data = d, error = JNull, status = Success, isLoading = False,
             isError = False, isSuccess = True, isFetching = False,
             dataUpdatedAt = Some (now w), errorUpdatedAt = None, fetchCount = None\<rparr>
      in (d, notifySubscribers k newState
               (w1\<lparr>queryStates := (queryStates w1)(k \<mapsto> newState)\<rparr>)))"

definition removeQueryData :: "key \<Rightarrow> vq \<Rightarrow> vq" where
  "removeQueryData k w =
     (let w1 = w\<lparr>cache := (cache w)(k := None),
                 queryStates := (queryStates w)(k := None),
                 queryConfigs := (queryConfigs w)(k := None),
                 subscribers := AList.delete k (subscribers w)\<rparr>
      in (case intervals w1 of
            None \<Rightarrow> w1
          | Some table \<Rightarrow>
              (case map_of table k of
                 None \<Rightarrow> w1
               | Some h \<Rightarrow> (clearInterval h w1)\<lparr>intervals := Some (AList.delete k table)\<rparr>)))"

definition clear :: "vq \<Rightarrow> vq" where
  "clear w =
     (let w1 = w\<lparr>cache := Map.empty, queryStates := Map.empty, queryConfigs := Map.empty\<rparr>;
          w2 = (case intervals w1 of
                  None \<Rightarrow> w1
                | Some table \<Rightarrow>
                    (foldl (\<lambda>v (k, intervalId). clearInterval intervalId v) w1 table)
                      \<lparr>intervals := Some []\<rparr>);
          w3 = w2\<lparr>trace := trace w2 @
                  concat (map (\<lambda>(k, cbs). map (\<lambda>cb. Notify cb idleState) cbs) (subscribers w2))\<rparr>
      in w3\<lparr>subscribers := []\<rparr>)"

text \<open>The task \<^verbatim>\<open>useQuery\<close> defers with \<^verbatim>\<open>setTimeout(..., 0)\<close>, when it runs: the promise of
  \<^verbatim>\<open>fetchQuery\<close> is dropped.\<close>

definition runTimeout :: "vq \<Rightarrow> vq" where
  "runTimeout w =
     (case timeouts w of
        [] \<Rightarrow> w
      | k # rest \<Rightarrow> snd (fetchQuery k (w\<lparr>timeouts := rest\<rparr>)))"

subsection \<open>Mutations\<close>

text \<open>\<^verbatim>\<open>useMutation\<close> builds a closure over its own state, subscriber set and options; the
  record \<open>mutation\<close> is that closure. Its fields carry the source's names with an
  \<open>M\<close> where a field of the query records has the name already.\<close>

record mutationOptions =
  onMutate :: "callback option"
  onSuccessM :: "callback option"
  onErrorM :: "callback option"
  onSettledM :: "callback option"
  retryM :: int
  retryDelayM :: delayOption

datatype mutationField =
    OnMutate "callback option"
  | OnSuccessM "callback option"
  | OnErrorM "callback option"
  | OnSettledM "callback option"
  | RetryM int
  | RetryDelayM delayOption

record mutationState =
  isIdle :: bool
  isLoadingM :: bool
  isSuccessM :: bool
  isErrorM :: bool
  dataM :: jsval
  errorM :: jsval
  statusM :: status

datatype mutationEvent =
    NotifyM nat mutationState
  | CalledOnMutate jsval
  | LoggedError jsval
  | CalledOnSuccessM jsval jsval jsval
  | CalledOnErrorM jsval jsval jsval
  | CalledOnSettledM jsval jsval jsval jsval

record mutation =
  mutationFn :: "jsval \<Rightarrow> nat \<Rightarrow> settled"
  calls :: nat
  finalOptionsM :: mutationOptions
  mutationState :: mutationState
  subscribersM :: "nat list"
  traceM :: "mutationEvent list"

definition defaultOptionsM :: mutationOptions where
  "defaultOptionsM =
     \<lparr>onMutate = None, onSuccessM = None, onErrorM = None, onSettledM = None,
      retryM = 0, retryDelayM = DelayFn defaultRetryDelay\<rparr>"

fun setOptionM :: "mutationOptions \<Rightarrow> mutationField \<Rightarrow> mutationOptions" where
  "setOptionM opts (OnMutate c) = opts\<lparr>onMutate := c\<rparr>"
| "setOptionM opts (OnSuccessM c) = opts\<lparr>onSuccessM := c\<rparr>"
| "setOptionM opts (OnErrorM c) = opts\<lparr>onErrorM := c\<rparr>"
| "setOptionM opts (OnSettledM c) = opts\<lparr>onSettledM := c\<rparr>"
| "setOptionM opts (RetryM n) = opts\<lparr>retryM := n\<rparr>"
| "setOptionM opts (RetryDelayM d) = opts\<lparr>retryDelayM := d\<rparr>"

definition idleStateM :: mutationState where
  "idleStateM =
     \<lparr>isIdle = True, isLoadingM = False, isSuccessM = False, isErrorM = False,
      dataM = JUndefined, errorM = JNull, statusM = Idle\<rparr>"

definition useMutation :: "(jsval \<Rightarrow> nat \<Rightarrow> settled) \<Rightarrow> mutationField list \<Rightarrow> mutation" where
  "useMutation fn given =
     \<lparr>mutationFn = fn, calls = 0, finalOptionsM = foldl setOptionM defaultOptionsM given,
      mutationState = idleStateM, subscribersM = [], traceM = []\<rparr>"

text \<open>\<^verbatim>\<open>setState(updates)\<close>: \<^verbatim>\<open>Object.assign\<close>, then every subscriber gets a copy.\<close>

definition setState :: "(mutationState \<Rightarrow> mutationState) \<Rightarrow> mutation \<Rightarrow> mutation" where
  "setState updates m =
     (let st = updates (mutationState m)
      in m\<lparr>mutationState := st,
            traceM := traceM m @ map (\<lambda>cb. NotifyM cb st) (subscribersM m)\<rparr>)"

definition reset :: "mutation \<Rightarrow> mutation" where
  "reset m = setState (\<lambda>s. idleStateM) m"

definition subscribeM :: "nat \<Rightarrow> mutation \<Rightarrow> mutation" where
  "subscribeM cb m =
     m\<lparr>subscribersM := (if cb \<in> set (subscribersM m) then subscribersM m
                         else subscribersM m @ [cb]),
       traceM := traceM m @ [NotifyM cb (mutationState m)]\<rparr>"

definition mutate :: "jsval \<Rightarrow> mutation \<Rightarrow> settled \<times> mutation" where
  "mutate variables m =
     (let opts = finalOptionsM m;
          (context, called0) =
             (case onMutate opts of
                None \<Rightarrow> (JUndefined, [])
              | Some (Returns c) \<Rightarrow> (c, [CalledOnMutate variables])
              | Some (Throws e) \<Rightarrow> (JUndefined, [CalledOnMutate variables, LoggedError e]));
          m1 = setState (\<lambda>s. s\<lparr>isIdle := False, isLoadingM := True, statusM := Loading\<rparr>)
                 (m\<lparr>traceM := traceM m @ called0\<rparr>);
          (result, fn2, waited) =
             performWithRetries (retryM opts) (retryDelayM opts)
               \<lparr>outcomes = mutationFn m variables, called = calls m\<rparr>;
          m2 = m1\<lparr>calls := called fn2\<rparr>
      in (case result of
            Resolved d \<Rightarrow>
              (let m3 = setState
                          (\<lambda>s. s\<lparr>isLoadingM := False, isSuccessM := True, isErrorM := False,
                                  dataM := d, errorM := JNull, statusM := Success\<rparr>) m2;
                   (evs, thrown) = runCallbacks
                      [(onSuccessM opts, CalledOnSuccessM d variables context),
                       (onSettledM opts, CalledOnSettledM d JNull variables context)]
               in ((case thrown of
                      Some e \<Rightarrow> Rejected e
                    | None \<Rightarrow> (if truthy d then Resolved d else Rejected JUndefined)),
                   m3\<lparr>traceM := traceM m3 @ evs\<rparr>))
          | Rejected e \<Rightarrow>
              (let m3 = setState
                          (\<lambda>s. s\<lparr>isLoadingM := False, isSuccessM := False, isErrorM := True,
                                  dataM := JUndefined, errorM := e, statusM := Error\<rparr>) m2;
                   (evs, thrown) = runCallbacks
                      [((if truthy e then onErrorM opts else None),
                        CalledOnErrorM e variables context),
                       (onSettledM opts,
                        CalledOnSettledM JUndefined (if truthy e then e else JNull) variables context)]
               in ((case thrown of Some e' \<Rightarrow> Rejected e' | None \<Rightarrow> Rejected e),
                   m3\<lparr>traceM := traceM m3 @ evs\<rparr>))))"

subsection \<open>Observations\<close>

text \<open>What the theorems below read off a state of the engine: how often the producer
  registered for a key has been called, the pairs of key and callback that are
  subscribed, the events a step appended to the trace, and the states one callback was
  called with.\<close>

definition invocations :: "vq \<Rightarrow> key \<Rightarrow> nat" where
  "invocations w k = (case queryConfigs w k of None \<Rightarrow> 0 | Some config \<Rightarrow> called (queryFn config))"

definition subscriptions :: "vq \<Rightarrow> (key \<times> nat) list" where
  "subscriptions w = concat (map (\<lambda>(k, cbs). map (Pair k) cbs) (subscribers w))"

definition subscribersOf :: "vq \<Rightarrow> key \<Rightarrow> nat list" where
  "subscribersOf w k = (case map_of (subscribers w) k of None \<Rightarrow> [] | Some cbs \<Rightarrow> cbs)"

text \<open>The call \<^verbatim>\<open>if (cb) cb(...)\<close> makes: one event when the callback is configured.\<close>

definition configured :: "callback option \<Rightarrow> 'e \<Rightarrow> 'e list" where
  "configured cb ev = (case cb of None \<Rightarrow> [] | Some c \<Rightarrow> [ev])"

definition newEvents :: "vq \<Rightarrow> vq \<Rightarrow> event list" where
  "newEvents w w' = drop (length (trace w)) (trace w')"

fun notifiedStates :: "nat \<Rightarrow> event list \<Rightarrow> queryState list" where
  "notifiedStates cb [] = []"
| "notifiedStates cb (Notify cb' st # evs) =
     (if cb' = cb then st # notifiedStates cb evs else notifiedStates cb evs)"
| "notifiedStates cb (ev # evs) = notifiedStates cb evs"

text \<open>The calls of lifecycle callbacks among some events.\<close>

fun lifecycleCalls :: "event list \<Rightarrow> event list" where
  "lifecycleCalls [] = []"
| "lifecycleCalls (Notify cb st # evs) = lifecycleCalls evs"
| "lifecycleCalls (ev # evs) = ev # lifecycleCalls evs"

section \<open>Properties\<close>

subsection \<open>Notifying changes the trace only\<close>

lemma notifySubscribers_fields [simp]:
  "cache (notifySubscribers k st w) = cache w"
  "queryStates (notifySubscribers k st w) = queryStates w"
  "queryConfigs (notifySubscribers k st w) = queryConfigs w"
  "subscribers (notifySubscribers k st w) = subscribers w"
  "intervals (notifySubscribers k st w) = intervals w"
  "now (notifySubscribers k st w) = now w"
  "timers (notifySubscribers k st w) = timers w"
  "timeouts (notifySubscribers k st w) = timeouts w"
  by (simp_all add: notifySubscribers_def split: option.split)

subsection \<open>The retry loop\<close>

declare retryLoop.simps [simp del]

lemma retryLoop_done: "success result \<Longrightarrow> retryLoop b d result a fn t = (result, fn, t)"
  by (simp add: retryLoop.simps)

lemma retryLoop_exhaust:
  "\<not> success result \<Longrightarrow> (\<And>i. i < nat (b - int a) \<Longrightarrow> \<not> success (outcomes fn (called fn + i))) \<Longrightarrow>
   \<exists>e t'. retryLoop b d result a fn t = (Rejected e, fn\<lparr>called := called fn + nat (b - int a)\<rparr>, t')"
proof (induction b d result a fn t rule: retryLoop.induct)
  case (1 budget d result attempt fn waited)
  show ?case
  proof (cases "int attempt < budget")
    case True
    let ?fn' = "fn\<lparr>called := called fn + 1\<rparr>"
    let ?r' = "outcomes fn (called fn)"
    have r': "\<not> success ?r'" using "1.prems"(2)[of 0] True by simp
    have later: "\<And>i. i < nat (budget - int (attempt + 1)) \<Longrightarrow>
                   \<not> success (outcomes ?fn' (called ?fn' + i))"
    proof -
      fix i assume "i < nat (budget - int (attempt + 1))"
      then have "Suc i < nat (budget - int attempt)" by linarith
      from "1.prems"(2)[OF this] show "\<not> success (outcomes ?fn' (called ?fn' + i))" by simp
    qed
    have cont: "\<not> success result \<and> int attempt < budget" using "1.prems"(1) True by simp
    have "\<exists>e t'. retryLoop budget d ?r' (attempt + 1) ?fn'
          (waited + nat (delayFor d (attempt + 1))) =
          (Rejected e, ?fn'\<lparr>called := called ?fn' + nat (budget - int (attempt + 1))\<rparr>, t')"
    proof (rule "1.IH"[OF cont refl refl])
      show "(?r', ?fn') = invoke fn" by (simp add: invoke_def)
      show "\<not> success ?r'" by (rule r')
      show "\<And>i. i < nat (budget - int (attempt + 1)) \<Longrightarrow>
                   \<not> success (outcomes ?fn' (called ?fn' + i))" by (rule later)
    qed (simp add: invoke_def)
    then obtain e t' where run: "retryLoop budget d ?r' (attempt + 1) ?fn'
          (waited + nat (delayFor d (attempt + 1))) =
          (Rejected e, ?fn'\<lparr>called := called ?fn' + nat (budget - int (attempt + 1))\<rparr>, t')"
      by blast
    have n: "nat (budget - int attempt) = Suc (nat (budget - int (attempt + 1)))"
      using True by linarith
    have "?fn'\<lparr>called := called ?fn' + nat (budget - int (attempt + 1))\<rparr> =
          fn\<lparr>called := called fn + nat (budget - int attempt)\<rparr>"
      by (simp add: n)
    with run have "retryLoop budget d result attempt fn waited =
          (Rejected e, fn\<lparr>called := called fn + nat (budget - int attempt)\<rparr>, t')"
      using cont by (subst retryLoop.simps) (simp add: invoke_def Let_def)
    then show ?thesis by blast
  next
    case False
    obtain e where "result = Rejected e" using "1.prems"(1) by (cases result) auto
    then show ?thesis using False by (subst retryLoop.simps) simp
  qed
qed

lemma retryLoop_success:
  "\<not> success result \<Longrightarrow> outcomes fn (called fn + j) = Resolved v \<Longrightarrow>
   (\<And>i. i < j \<Longrightarrow> \<not> success (outcomes fn (called fn + i))) \<Longrightarrow> int a + int j < b \<Longrightarrow>
   \<exists>t'. retryLoop b d result a fn t = (Resolved v, fn\<lparr>called := called fn + j + 1\<rparr>, t')"
proof (induction j arbitrary: result a fn t)
  case 0
  then show ?case
    by (subst retryLoop.simps) (simp add: invoke_def Let_def retryLoop_done)
next
  case (Suc j)
  let ?fn' = "fn\<lparr>called := called fn + 1\<rparr>"
  let ?r' = "outcomes fn (called fn)"
  have r': "\<not> success ?r'" using Suc.prems(3)[of 0] by simp
  have hit: "outcomes ?fn' (called ?fn' + j) = Resolved v" using Suc.prems(2) by simp
  have before: "\<And>i. i < j \<Longrightarrow> \<not> success (outcomes ?fn' (called ?fn' + i))"
  proof -
    fix i assume "i < j"
    then have "Suc i < Suc j" by simp
    from Suc.prems(3)[OF this] show "\<not> success (outcomes ?fn' (called ?fn' + i))" by simp
  qed
  have "int (a + 1) + int j < b" using Suc.prems(4) by simp
  from Suc.IH[OF r' hit before this]
  obtain t' where "retryLoop b d ?r' (a + 1) ?fn' (t + nat (delayFor d (a + 1))) =
      (Resolved v, ?fn'\<lparr>called := called ?fn' + j + 1\<rparr>, t')" by blast
  then show ?case using Suc.prems(1,4)
    by (subst retryLoop.simps) (simp add: invoke_def Let_def)
qed


lemma performWithRetries_success:
  assumes "outcomes fn (called fn + j) = Resolved v"
      and "\<And>i. i < j \<Longrightarrow> \<not> success (outcomes fn (called fn + i))"
      and "j = 0 \<or> int j \<le> budget"
  shows "\<exists>t. performWithRetries budget d fn = (Resolved v, fn\<lparr>called := called fn + j + 1\<rparr>, t)"
proof (cases j)
  case 0
  then show ?thesis using assms(1)
    by (simp add: performWithRetries_def invoke_def retryLoop_done)
next
  case (Suc j')
  let ?fn' = "fn\<lparr>called := called fn + 1\<rparr>"
  have first: "\<not> success (outcomes fn (called fn))" using assms(2)[of 0] Suc by simp
  have hit: "outcomes ?fn' (called ?fn' + j') = Resolved v" using assms(1) Suc by simp
  have before: "\<And>i. i < j' \<Longrightarrow> \<not> success (outcomes ?fn' (called ?fn' + i))"
  proof -
    fix i assume "i < j'"
    then have "Suc i < j" using Suc by simp
    from assms(2)[OF this] show "\<not> success (outcomes ?fn' (called ?fn' + i))" by simp
  qed
  have "int 0 + int j' < budget" using assms(3) Suc by simp
  from retryLoop_success[where d = d and t = 0, OF first hit before this]
  obtain t where "retryLoop budget d (outcomes fn (called fn)) 0 ?fn' 0 =
      (Resolved v, ?fn'\<lparr>called := called ?fn' + j' + 1\<rparr>, t)" by blast
  then show ?thesis using Suc by (simp add: performWithRetries_def invoke_def)
qed

lemma performWithRetries_exhaust:
  assumes "\<And>i. i \<le> nat budget \<Longrightarrow> \<not> success (outcomes fn (called fn + i))"
  shows "\<exists>e t. performWithRetries budget d fn =
           (Rejected e, fn\<lparr>called := called fn + 1 + nat budget\<rparr>, t)"
proof -
  let ?fn' = "fn\<lparr>called := called fn + 1\<rparr>"
  have first: "\<not> success (outcomes fn (called fn))" using assms[of 0] by simp
  have later: "\<And>i. i < nat (budget - int 0) \<Longrightarrow> \<not> success (outcomes ?fn' (called ?fn' + i))"
  proof -
    fix i assume "i < nat (budget - int 0)"
    then have "Suc i \<le> nat budget" by simp
    from assms[OF this] show "\<not> success (outcomes ?fn' (called ?fn' + i))" by simp
  qed
  from retryLoop_exhaust[where d = d and t = 0, OF first later]
  obtain e t where "retryLoop budget d (outcomes fn (called fn)) 0 ?fn' 0 =
      (Rejected e, ?fn'\<lparr>called := called ?fn' + nat (budget - int 0)\<rparr>, t)" by blast
  then show ?thesis by (simp add: performWithRetries_def invoke_def)
qed



lemma runCallbacks_no_throw:
  "\<not> throws c1 \<Longrightarrow> \<not> throws c2 \<Longrightarrow> snd (runCallbacks [(c1, e1), (c2, e2)]) = None"
  by (cases c1 rule: throws.cases; cases c2 rule: throws.cases) simp_all

lemma runCallbacks_quiet:
  "\<not> throws c1 \<Longrightarrow> \<not> throws c2 \<Longrightarrow>
   runCallbacks [(c1, e1), (c2, e2)] = (configured c1 e1 @ configured c2 e2, None)"
  by (cases c1 rule: throws.cases; cases c2 rule: throws.cases) (simp_all add: configured_def)

lemma settleSuccess_fields:
  "cache (snd (settleSuccess k opts d w)) = (cache w)(k \<mapsto> \<lparr>entryData = d, timestamp = now w\<rparr>)"
  "queryStates (snd (settleSuccess k opts d w)) = (queryStates w)(k \<mapsto>
     \<lparr>data = d, error = JNull, status = Success, isLoading = False,
      isError = False, isSuccess = True, isFetching = False,
      dataUpdatedAt = Some (now w), errorUpdatedAt = None, fetchCount = None\<rparr>)"
  "queryConfigs (snd (settleSuccess k opts d w)) = queryConfigs w"
  "now (snd (settleSuccess k opts d w)) = now w"
  "timeouts (snd (settleSuccess k opts d w)) = timeouts w"
  by (simp_all add: settleSuccess_def Let_def split: prod.split)

lemma settleSuccess_result:
  "\<not> throws (onSuccess opts) \<Longrightarrow> \<not> throws (onSettled opts) \<Longrightarrow>
   fst (settleSuccess k opts d w) = Resolved d"
  using runCallbacks_no_throw[of "onSuccess opts" "onSettled opts" "CalledOnSuccess k d" "CalledOnSettled k d JNull"]
  by (simp add: settleSuccess_def Let_def case_prod_beta)

lemma settleError_fields:
  "cache (snd (settleError k opts newState e w)) = cache w"
  "queryStates (snd (settleError k opts newState e w)) = (queryStates w)(k \<mapsto>
     newState\<lparr>status := Error, error := (if truthy e then e else JNull),
              isLoading := False, isError := True, isSuccess := False,
              isFetching := False, errorUpdatedAt := Some (now w)\<rparr>)"
  "queryConfigs (snd (settleError k opts newState e w)) = queryConfigs w"
  "now (snd (settleError k opts newState e w)) = now w"
  "timeouts (snd (settleError k opts newState e w)) = timeouts w"
  by (simp_all add: settleError_def Let_def split: prod.split)

lemma settleError_result:
  "\<not> throws (onError opts) \<Longrightarrow> \<not> throws (onSettled opts) \<Longrightarrow>
   fst (settleError k opts newState e w) = Resolved JUndefined"
  using runCallbacks_no_throw[of "onError opts" "onSettled opts" "CalledOnError k e" "CalledOnSettled k JUndefined e"]
  by (simp add: settleError_def Let_def case_prod_beta)

lemma fetchQuery_Resolved:
  assumes "queryConfigs w k = Some config" and "queryStates w k = Some st"
      and "performWithRetries (maxRetries (retry (options config)))
             (retryDelay (options config)) (queryFn config) = (Resolved d, fn2, waited)"
  shows "cache (snd (fetchQuery k w)) =
           (cache w)(k \<mapsto> \<lparr>entryData = d, timestamp = now w + waited\<rparr>)"
    and "queryStates (snd (fetchQuery k w)) = (queryStates w)(k \<mapsto>
           \<lparr>data = d, error = JNull, status = Success, isLoading = False,
            isError = False, isSuccess = True, isFetching = False,
            dataUpdatedAt = Some (now w + waited), errorUpdatedAt = None, fetchCount = None\<rparr>)"
    and "queryConfigs (snd (fetchQuery k w)) = (queryConfigs w)(k \<mapsto> config\<lparr>queryFn := fn2\<rparr>)"
    and "now (snd (fetchQuery k w)) = now w + waited"
    and "\<not> throws (onSuccess (options config)) \<Longrightarrow> \<not> throws (onSettled (options config)) \<Longrightarrow>
         fst (fetchQuery k w) = Resolved d"
  using assms
  by (simp_all add: fetchQuery_def Let_def settleSuccess_fields settleSuccess_result)

lemma fetchQuery_Rejected:
  assumes "queryConfigs w k = Some config" and "queryStates w k = Some st"
      and "performWithRetries (maxRetries (retry (options config)))
             (retryDelay (options config)) (queryFn config) = (Rejected e, fn2, waited)"
  shows "cache (snd (fetchQuery k w)) = cache w"
    and "queryStates (snd (fetchQuery k w)) = (queryStates w)(k \<mapsto>
           (loadingState st)\<lparr>status := Error, error := (if truthy e then e else JNull),
              isLoading := False, isError := True, isSuccess := False,
              isFetching := False, errorUpdatedAt := Some (now w + waited)\<rparr>)"
    and "queryConfigs (snd (fetchQuery k w)) = (queryConfigs w)(k \<mapsto> config\<lparr>queryFn := fn2\<rparr>)"
    and "now (snd (fetchQuery k w)) = now w + waited"
    and "\<not> throws (onError (options config)) \<Longrightarrow> \<not> throws (onSettled (options config)) \<Longrightarrow>
         fst (fetchQuery k w) = Resolved JUndefined"
  using assms
  by (simp_all add: fetchQuery_def Let_def settleError_fields settleError_result)


lemma fetchQuery_Resolved_events:
  assumes "queryConfigs w k = Some config" and "queryStates w k = Some st"
      and "performWithRetries (maxRetries (retry (options config)))
             (retryDelay (options config)) (queryFn config) = (Resolved d, fn2, waited)"
      and "\<not> throws (onSuccess (options config))" and "\<not> throws (onSettled (options config))"
  shows "newEvents w (snd (fetchQuery k w)) =
           map (\<lambda>cb. Notify cb (loadingState st)) (subscribersOf w k)
         @ map (\<lambda>cb. Notify cb (getQueryState (snd (fetchQuery k w)) k)) (subscribersOf w k)
         @ configured (onSuccess (options config)) (CalledOnSuccess k d)
         @ configured (onSettled (options config)) (CalledOnSettled k d JNull)"
  using assms
  by (simp add: fetchQuery_def settleSuccess_def notifySubscribers_def newEvents_def
        subscribersOf_def getQueryState_def runCallbacks_quiet Let_def split: option.split)


lemma lifecycleCalls_append:
  "lifecycleCalls (xs @ ys) = lifecycleCalls xs @ lifecycleCalls ys"
  by (induction xs rule: lifecycleCalls.induct) simp_all

lemma lifecycleCalls_Notify:
  "lifecycleCalls (map (\<lambda>cb. Notify cb st) cbs) = []"
  by (induction cbs) simp_all

subsection \<open>Fetching\<close>

lemma fetchQuery_succeeds:
  assumes "queryConfigs w k = Some config" and "queryStates w k = Some st"
      and "outcomes (queryFn config) (called (queryFn config) + j) = Resolved v"
      and "\<And>i. i < j \<Longrightarrow> \<not> success (outcomes (queryFn config) (called (queryFn config) + i))"
      and "j = 0 \<or> int j \<le> maxRetries (retry (options config))"
  shows "\<exists>t. cache (snd (fetchQuery k w)) = (cache w)(k \<mapsto> \<lparr>entryData = v, timestamp = t\<rparr>)
           \<and> queryStates (snd (fetchQuery k w)) = (queryStates w)(k \<mapsto>
                \<lparr>data = v, error = JNull, status = Success, isLoading = False,
                 isError = False, isSuccess = True, isFetching = False,
                 dataUpdatedAt = Some t, errorUpdatedAt = None, fetchCount = None\<rparr>)
           \<and> queryConfigs (snd (fetchQuery k w)) = (queryConfigs w)(k \<mapsto>
                config\<lparr>queryFn := (queryFn config)\<lparr>called := called (queryFn config) + j + 1\<rparr>\<rparr>)
           \<and> (\<not> throws (onSuccess (options config)) \<and> \<not> throws (onSettled (options config))
                \<longrightarrow> fst (fetchQuery k w) = Resolved v)"
proof -
  from performWithRetries_success[OF assms(3,4,5)]
  obtain t where run: "performWithRetries (maxRetries (retry (options config)))
      (retryDelay (options config)) (queryFn config) =
      (Resolved v, (queryFn config)\<lparr>called := called (queryFn config) + j + 1\<rparr>, t)"
    by blast
  show ?thesis
    using fetchQuery_Resolved[OF assms(1,2) run] by (intro exI[of _ "now w + t"]) simp
qed

lemma fetchQuery_fails:
  assumes "queryConfigs w k = Some config" and "queryStates w k = Some st"
      and "\<And>i. i \<le> nat (maxRetries (retry (options config))) \<Longrightarrow>
             \<not> success (outcomes (queryFn config) (called (queryFn config) + i))"
  shows "\<exists>e. cache (snd (fetchQuery k w)) = cache w
           \<and> queryStates (snd (fetchQuery k w)) = (queryStates w)(k \<mapsto>
                (loadingState st)\<lparr>status := Error, error := e,
                   isLoading := False, isError := True, isSuccess := False,
                   isFetching := False, errorUpdatedAt := Some (now (snd (fetchQuery k w)))\<rparr>)
           \<and> queryConfigs (snd (fetchQuery k w)) = (queryConfigs w)(k \<mapsto>
                config\<lparr>queryFn := (queryFn config)\<lparr>called := called (queryFn config) + 1
                   + nat (maxRetries (retry (options config)))\<rparr>\<rparr>)
           \<and> (\<not> throws (onError (options config)) \<and> \<not> throws (onSettled (options config))
                \<longrightarrow> fst (fetchQuery k w) = Resolved JUndefined)"
proof -
  from performWithRetries_exhaust[OF assms(3)]
  obtain e t where run: "performWithRetries (maxRetries (retry (options config)))
      (retryDelay (options config)) (queryFn config) =
      (Rejected e, (queryFn config)\<lparr>called := called (queryFn config) + 1
          + nat (maxRetries (retry (options config)))\<rparr>, t)"
    by blast
  show ?thesis
    using fetchQuery_Rejected[OF assms(1,2) run]
    by (intro exI[of _ "if truthy e then e else JNull"]) simp
qed

subsection \<open>Claims about fetching\<close>

text \<open>
  A key that has a config and a state (every key registered with \<^verbatim>\<open>useQuery\<close>): when its
  producer rejects at every call, one \<^verbatim>\<open>fetchQuery\<close> calls the producer once and then once
  per retry of the resolved budget, and leaves the state in status \<open>Error\<close> with
  \<open>isError\<close> set. The budget is 3 for \<^verbatim>\<open>retry: true\<close>, 0 for \<^verbatim>\<open>retry: false\<close> and \<open>n\<close> for
  \<^verbatim>\<open>retry: n\<close>, which makes 4 calls, 1 call and \<open>1 + n\<close> calls. The number of retries
  is the budget as a count (\<open>nat\<close>: the loop guard \<^verbatim>\<open>attempt < maxRetries\<close> makes no
  retry for a budget below 1).
\<close>

theorem fetchQuery_retry_exhaustion:
  assumes "queryConfigs w k = Some config" and "queryStates w k = Some st"
      and "\<forall>i. \<not> success (outcomes (queryFn config) i)"
  shows "invocations (snd (fetchQuery k w)) k
           = invocations w k + 1 + nat (maxRetries (retry (options config)))
       \<and> status (getQueryState (snd (fetchQuery k w)) k) = Error
       \<and> isError (getQueryState (snd (fetchQuery k w)) k)
       \<and> maxRetries (RetryBool True) = 3 \<and> maxRetries (RetryBool False) = 0
       \<and> (\<forall>n. maxRetries (RetryNum n) = n)
       \<and> (retry (options config) = RetryBool True \<longrightarrow>
            invocations (snd (fetchQuery k w)) k = invocations w k + 1 + 3)
       \<and> (retry (options config) = RetryBool False \<longrightarrow>
            invocations (snd (fetchQuery k w)) k = invocations w k + 1)
       \<and> (\<forall>n. retry (options config) = RetryNum (int n) \<longrightarrow>
            invocations (snd (fetchQuery k w)) k = invocations w k + 1 + n)"
proof -
  from fetchQuery_fails[OF assms(1,2)] assms(3)
  obtain e where
    "queryStates (snd (fetchQuery k w)) = (queryStates w)(k \<mapsto>
                (loadingState st)\<lparr>status := Error, error := e,
                   isLoading := False, isError := True, isSuccess := False,
                   isFetching := False, errorUpdatedAt := Some (now (snd (fetchQuery k w)))\<rparr>)"
    "queryConfigs (snd (fetchQuery k w)) = (queryConfigs w)(k \<mapsto>
                config\<lparr>queryFn := (queryFn config)\<lparr>called := called (queryFn config) + 1
                   + nat (maxRetries (retry (options config)))\<rparr>\<rparr>)"
    by blast
  then show ?thesis
    using assms(1) by (auto simp: invocations_def getQueryState_def maxRetries_def)
qed

theorem fetchQuery_retry_exhaustion_witness:
  "invocations (snd (fetchQuery ''users''
      (useQuery ''users'' \<lparr>outcomes = (\<lambda>i. Rejected (JStr ''down'')), called = 0\<rparr>
         [Retry (RetryNum 2)] (newVanillaQuery 0 False)))) ''users'' = 3
   \<and> status (getQueryState (snd (fetchQuery ''users''
      (useQuery ''users'' \<lparr>outcomes = (\<lambda>i. Rejected (JStr ''down'')), called = 0\<rparr>
         [Retry (RetryNum 2)] (newVanillaQuery 0 False)))) ''users'') = Error"
proof -
  let ?p = "\<lparr>outcomes = (\<lambda>i. Rejected (JStr ''down'')), called = 0\<rparr>"
  let ?w = "useQuery ''users'' ?p [Retry (RetryNum 2)] (newVanillaQuery 0 False)"
  have c: "queryConfigs ?w ''users'' = Some \<lparr>queryFn = ?p, options = finalOptions [Retry (RetryNum 2)]\<rparr>"
    by (simp add: useQuery_def newVanillaQuery_def finalOptions_def defaultOptions_def Let_def)
  have s: "queryStates ?w ''users'' = Some (idleState\<lparr>dataUpdatedAt := Some 0,
             errorUpdatedAt := Some 0, fetchCount := Some 0\<rparr>)"
    by (simp add: useQuery_def newVanillaQuery_def finalOptions_def defaultOptions_def Let_def)
  have r: "\<forall>i. \<not> success (outcomes (queryFn \<lparr>queryFn = ?p, options = finalOptions [Retry (RetryNum 2)]\<rparr>) i)"
    by simp
  from fetchQuery_retry_exhaustion[OF c s r] show ?thesis
    by (simp add: invocations_def c finalOptions_def defaultOptions_def maxRetries_def)
qed

text \<open>
  C4. A fetch for a registered key succeeds with the value \<open>V\<close> (at its first call or at
  a retry within the budget); the next \<^verbatim>\<open>refetchQuery\<close>, which is \<^verbatim>\<open>fetchQuery\<close>, finds
  the producer failing at every call the budget allows. That failing fetch leaves the
  whole cache as it was, so \<^verbatim>\<open>getQueryData\<close> still returns \<open>V\<close>, and the state it
  writes has status \<open>Error\<close>, \<open>isError\<close> set, \<open>isLoading\<close> and \<open>isFetching\<close> cleared and
  \<open>errorUpdatedAt\<close> set to the time of the write.
\<close>

theorem failed_refetch_keeps_cache:
  assumes "queryConfigs w k = Some config" and "queryStates w k = Some st"
      and "outcomes (queryFn config) (called (queryFn config) + j) = Resolved V"
      and "\<forall>i<j. \<not> success (outcomes (queryFn config) (called (queryFn config) + i))"
      and "j = 0 \<or> int j \<le> maxRetries (retry (options config))"
      and "\<forall>i. i \<le> nat (maxRetries (retry (options config))) \<longrightarrow>
             \<not> success (outcomes (queryFn config) (called (queryFn config) + j + 1 + i))"
  shows "(let w1 = snd (fetchQuery k w); w2 = snd (refetchQuery k w1) in
           getQueryData w1 k = V
         \<and> refetchQuery k w1 = fetchQuery k w1
         \<and> cache w2 = cache w1
         \<and> getQueryData w2 k = V
         \<and> status (getQueryState w2 k) = Error
         \<and> isError (getQueryState w2 k)
         \<and> \<not> isLoading (getQueryState w2 k)
         \<and> \<not> isFetching (getQueryState w2 k)
         \<and> errorUpdatedAt (getQueryState w2 k) = Some (now w2))"
proof -
  let ?fn = "queryFn config"
  let ?w1 = "snd (fetchQuery k w)"
  let ?config1 = "config\<lparr>queryFn := ?fn\<lparr>called := called ?fn + j + 1\<rparr>\<rparr>"
  from fetchQuery_succeeds[OF assms(1,2,3) _ assms(5)] assms(4)
  obtain t where first:
    "cache ?w1 = (cache w)(k \<mapsto> \<lparr>entryData = V, timestamp = t\<rparr>)"
    "queryStates ?w1 = (queryStates w)(k \<mapsto>
        \<lparr>data = V, error = JNull, status = Success, isLoading = False,
         isError = False, isSuccess = True, isFetching = False,
         dataUpdatedAt = Some t, errorUpdatedAt = None, fetchCount = None\<rparr>)"
    "queryConfigs ?w1 = (queryConfigs w)(k \<mapsto> ?config1)"
    by blast
  have c1: "queryConfigs ?w1 k = Some ?config1" by (simp add: first)
  have s1: "queryStates ?w1 k = Some
        \<lparr>data = V, error = JNull, status = Success, isLoading = False,
         isError = False, isSuccess = True, isFetching = False,
         dataUpdatedAt = Some t, errorUpdatedAt = None, fetchCount = None\<rparr>"
    by (simp add: first)
  have fails: "\<And>i. i \<le> nat (maxRetries (retry (options ?config1))) \<Longrightarrow>
      \<not> success (outcomes (queryFn ?config1) (called (queryFn ?config1) + i))"
    using assms(6) by simp
  from fetchQuery_fails[OF c1 s1 fails]
  obtain e where second:
    "cache (snd (fetchQuery k ?w1)) = cache ?w1"
    "queryStates (snd (fetchQuery k ?w1)) = (queryStates ?w1)(k \<mapsto>
        (loadingState \<lparr>data = V, error = JNull, status = Success, isLoading = False,
         isError = False, isSuccess = True, isFetching = False,
         dataUpdatedAt = Some t, errorUpdatedAt = None, fetchCount = None\<rparr>)
           \<lparr>status := Error, error := e,
            isLoading := False, isError := True, isSuccess := False,
            isFetching := False, errorUpdatedAt := Some (now (snd (fetchQuery k ?w1)))\<rparr>)"
    by blast
  show ?thesis
    by (simp add: Let_def refetchQuery_def getQueryData_def getQueryState_def first(1) second)
qed

theorem failed_refetch_keeps_cache_witness:
  "getQueryData (snd (refetchQuery ''users'' (snd (fetchQuery ''users''
      (useQuery ''users''
         \<lparr>outcomes = (\<lambda>i. if i = 0 then Resolved (JStr ''v1'') else Rejected (JStr ''down'')),
          called = 0\<rparr>
         [Retry (RetryNum 1)] (newVanillaQuery 0 False)))))) ''users'' = JStr ''v1''
   \<and> isError (getQueryState (snd (refetchQuery ''users'' (snd (fetchQuery ''users''
      (useQuery ''users''
         \<lparr>outcomes = (\<lambda>i. if i = 0 then Resolved (JStr ''v1'') else Rejected (JStr ''down'')),
          called = 0\<rparr>
         [Retry (RetryNum 1)] (newVanillaQuery 0 False)))))) ''users'')"
proof -
  let ?p = "\<lparr>outcomes = (\<lambda>i. if i = 0 then Resolved (JStr ''v1'') else Rejected (JStr ''down'')),
            called = 0\<rparr>"
  let ?c = "\<lparr>queryFn = ?p, options = finalOptions [Retry (RetryNum 1)]\<rparr>"
  let ?s = "idleState\<lparr>dataUpdatedAt := Some 0, errorUpdatedAt := Some 0, fetchCount := Some 0\<rparr>"
  let ?w = "useQuery ''users'' ?p [Retry (RetryNum 1)] (newVanillaQuery 0 False)"
  have c: "queryConfigs ?w ''users'' = Some ?c"
    by (simp add: useQuery_def newVanillaQuery_def finalOptions_def defaultOptions_def Let_def)
  have s: "queryStates ?w ''users'' = Some ?s"
    by (simp add: useQuery_def newVanillaQuery_def finalOptions_def defaultOptions_def Let_def)
  have hit: "outcomes (queryFn ?c) (called (queryFn ?c) + 0) = Resolved (JStr ''v1'')" by simp
  have before: "\<forall>i<0::nat. \<not> success (outcomes (queryFn ?c) (called (queryFn ?c) + i))" by simp
  have bound: "(0::nat) = 0 \<or> int 0 \<le> maxRetries (retry (options ?c))" by simp
  have fails: "\<forall>i. i \<le> nat (maxRetries (retry (options ?c))) \<longrightarrow>
             \<not> success (outcomes (queryFn ?c) (called (queryFn ?c) + 0 + 1 + i))" by simp
  from failed_refetch_keeps_cache[OF c s hit before bound fails]
  show ?thesis unfolding Let_def by blast
qed




text \<open>
  C10. A fetch for a registered key succeeds with \<open>V\<close> and caches it; then
  \<^verbatim>\<open>invalidateQuery\<close> runs while the producer fails at every call the budget allows. The
  cache entry is gone afterwards (\<^verbatim>\<open>getQueryData\<close> returns \<^verbatim>\<open>undefined\<close>), while the
  error state still holds \<open>V\<close> in its \<open>data\<close> field. A plain \<^verbatim>\<open>refetchQuery\<close> failing
  in the same way keeps the cache entry.
\<close>

theorem invalidate_failure_drops_cache:
  assumes "queryConfigs w k = Some config" and "queryStates w k = Some st"
      and "outcomes (queryFn config) (called (queryFn config) + j) = Resolved V"
      and "\<forall>i<j. \<not> success (outcomes (queryFn config) (called (queryFn config) + i))"
      and "j = 0 \<or> int j \<le> maxRetries (retry (options config))"
      and "\<forall>i. i \<le> nat (maxRetries (retry (options config))) \<longrightarrow>
             \<not> success (outcomes (queryFn config) (called (queryFn config) + j + 1 + i))"
  shows "(let w1 = snd (fetchQuery k w); w2 = snd (invalidateQuery k w1) in
           getQueryData w1 k = V
         \<and> cache w2 k = None
         \<and> getQueryData w2 k = JUndefined
         \<and> data (getQueryState w2 k) = V
         \<and> status (getQueryState w2 k) = Error
         \<and> isError (getQueryState w2 k)
         \<and> getQueryData (snd (refetchQuery k w1)) k = V)"
proof -
  let ?fn = "queryFn config"
  let ?w1 = "snd (fetchQuery k w)"
  let ?w1' = "?w1\<lparr>cache := (cache ?w1)(k := None)\<rparr>"
  let ?config1 = "config\<lparr>queryFn := ?fn\<lparr>called := called ?fn + j + 1\<rparr>\<rparr>"
  from fetchQuery_succeeds[OF assms(1,2,3) _ assms(5)] assms(4)
  obtain t where first:
    "cache ?w1 = (cache w)(k \<mapsto> \<lparr>entryData = V, timestamp = t\<rparr>)"
    "queryStates ?w1 = (queryStates w)(k \<mapsto>
        \<lparr>data = V, error = JNull, status = Success, isLoading = False,
         isError = False, isSuccess = True, isFetching = False,
         dataUpdatedAt = Some t, errorUpdatedAt = None, fetchCount = None\<rparr>)"
    "queryConfigs ?w1 = (queryConfigs w)(k \<mapsto> ?config1)"
    by blast
  let ?s1 = "\<lparr>data = V, error = JNull, status = Success, isLoading = False,
         isError = False, isSuccess = True, isFetching = False,
         dataUpdatedAt = Some t, errorUpdatedAt = None, fetchCount = None\<rparr>"
  have c1: "queryConfigs ?w1 k = Some ?config1" by (simp add: first)
  have s1: "queryStates ?w1 k = Some ?s1" by (simp add: first)
  have c1': "queryConfigs ?w1' k = Some ?config1" by (simp add: first)
  have s1': "queryStates ?w1' k = Some ?s1" by (simp add: first)
  have fails: "\<And>i. i \<le> nat (maxRetries (retry (options ?config1))) \<Longrightarrow>
      \<not> success (outcomes (queryFn ?config1) (called (queryFn ?config1) + i))"
    using assms(6) by simp
  from fetchQuery_fails[OF c1' s1' fails]
  obtain e where inval:
    "cache (snd (fetchQuery k ?w1')) = cache ?w1'"
    "queryStates (snd (fetchQuery k ?w1')) = (queryStates ?w1')(k \<mapsto>
        (loadingState ?s1)\<lparr>status := Error, error := e,
            isLoading := False, isError := True, isSuccess := False,
            isFetching := False, errorUpdatedAt := Some (now (snd (fetchQuery k ?w1')))\<rparr>)"
    by blast
  from fetchQuery_fails[OF c1 s1 fails]
  have plain: "cache (snd (fetchQuery k ?w1)) = cache ?w1" by blast
  let ?w2 = "snd (invalidateQuery k ?w1)"
  have w2: "?w2 = snd (fetchQuery k ?w1')" by (simp add: invalidateQuery_def)
  have g1: "getQueryData ?w1 k = V" by (simp add: getQueryData_def first(1))
  have dropped: "cache ?w2 k = None" by (simp add: w2 inval(1))
  then have g2: "getQueryData ?w2 k = JUndefined" by (simp add: getQueryData_def)
  have "queryStates ?w2 k = Some ((loadingState ?s1)\<lparr>status := Error, error := e,
            isLoading := False, isError := True, isSuccess := False,
            isFetching := False, errorUpdatedAt := Some (now ?w2)\<rparr>)"
    by (simp add: w2 inval(2))
  then have st2: "data (getQueryState ?w2 k) = V" "status (getQueryState ?w2 k) = Error"
      "isError (getQueryState ?w2 k)"
    by (simp_all add: getQueryState_def loadingState_def)
  have g3: "getQueryData (snd (refetchQuery k ?w1)) k = V"
    using g1 by (simp add: refetchQuery_def getQueryData_def plain)
  show ?thesis
    using g1 dropped g2 st2 g3 by (simp add: Let_def)
qed

theorem invalidate_failure_drops_cache_witness:
  "getQueryData (snd (invalidateQuery ''users'' (snd (fetchQuery ''users''
      (useQuery ''users''
         \<lparr>outcomes = (\<lambda>i. if i = 0 then Resolved (JStr ''v1'') else Rejected (JStr ''down'')),
          called = 0\<rparr>
         [Retry (RetryNum 1)] (newVanillaQuery 0 False)))))) ''users'' = JUndefined
   \<and> data (getQueryState (snd (invalidateQuery ''users'' (snd (fetchQuery ''users''
      (useQuery ''users''
         \<lparr>outcomes = (\<lambda>i. if i = 0 then Resolved (JStr ''v1'') else Rejected (JStr ''down'')),
          called = 0\<rparr>
         [Retry (RetryNum 1)] (newVanillaQuery 0 False)))))) ''users'') = JStr ''v1''"
proof -
  let ?p = "\<lparr>outcomes = (\<lambda>i. if i = 0 then Resolved (JStr ''v1'') else Rejected (JStr ''down'')),
            called = 0\<rparr>"
  let ?c = "\<lparr>queryFn = ?p, options = finalOptions [Retry (RetryNum 1)]\<rparr>"
  let ?s = "idleState\<lparr>dataUpdatedAt := Some 0, errorUpdatedAt := Some 0, fetchCount := Some 0\<rparr>"
  let ?w = "useQuery ''users'' ?p [Retry (RetryNum 1)] (newVanillaQuery 0 False)"
  have c: "queryConfigs ?w ''users'' = Some ?c"
    by (simp add: useQuery_def newVanillaQuery_def finalOptions_def defaultOptions_def Let_def)
  have s: "queryStates ?w ''users'' = Some ?s"
    by (simp add: useQuery_def newVanillaQuery_def finalOptions_def defaultOptions_def Let_def)
  have hit: "outcomes (queryFn ?c) (called (queryFn ?c) + 0) = Resolved (JStr ''v1'')" by simp
  have before: "\<forall>i<0::nat. \<not> success (outcomes (queryFn ?c) (called (queryFn ?c) + i))" by simp
  have bound: "(0::nat) = 0 \<or> int 0 \<le> maxRetries (retry (options ?c))" by simp
  have fails: "\<forall>i. i \<le> nat (maxRetries (retry (options ?c))) \<longrightarrow>
             \<not> success (outcomes (queryFn ?c) (called (queryFn ?c) + 0 + 1 + i))" by simp
  from invalidate_failure_drops_cache[OF c s hit before bound fails]
  show ?thesis unfolding Let_def by blast
qed

subsection \<open>Clearing the engine\<close>

lemma clearInterval_fields [simp]:
  "timers (clearInterval h w) = filter (\<lambda>(h', k). h' \<noteq> h) (timers w)"
  "cache (clearInterval h w) = cache w"
  "queryStates (clearInterval h w) = queryStates w"
  "queryConfigs (clearInterval h w) = queryConfigs w"
  "subscribers (clearInterval h w) = subscribers w"
  "intervals (clearInterval h w) = intervals w"
  "trace (clearInterval h w) = trace w"
  by (simp_all add: clearInterval_def)

lemma foldl_clearInterval_fields:
  "cache (foldl (\<lambda>v (k, h). clearInterval h v) w table) = cache w"
  "queryStates (foldl (\<lambda>v (k, h). clearInterval h v) w table) = queryStates w"
  "queryConfigs (foldl (\<lambda>v (k, h). clearInterval h v) w table) = queryConfigs w"
  "subscribers (foldl (\<lambda>v (k, h). clearInterval h v) w table) = subscribers w"
  "trace (foldl (\<lambda>v (k, h). clearInterval h v) w table) = trace w"
  by (induction table arbitrary: w; simp add: case_prod_beta)+

lemma foldl_clearInterval_timers:
  "timers (foldl (\<lambda>v (k, h). clearInterval h v) w table) =
     filter (\<lambda>(h', k'). h' \<notin> snd ` set table) (timers w)"
proof (induction table arbitrary: w)
  case Nil
  then show ?case by simp
next
  case (Cons p table)
  have "timers (foldl (\<lambda>v (k, h). clearInterval h v) (clearInterval (snd p) w) table) =
     filter (\<lambda>(h', k'). h' \<notin> snd ` set table) (timers (clearInterval (snd p) w))"
    by (rule Cons.IH)
  also have "\<dots> = filter (\<lambda>(h', k'). h' \<notin> snd ` set (p # table)) (timers w)"
    by (auto intro!: filter_cong)
  finally show ?case by (cases p) simp
qed

lemma notifiedStates_append:
  "notifiedStates cb (xs @ ys) = notifiedStates cb xs @ notifiedStates cb ys"
  by (induction cb xs rule: notifiedStates.induct) simp_all

lemma notifiedStates_one_set:
  "notifiedStates cb (map (\<lambda>c. Notify c st) cbs) =
     replicate (length (filter (\<lambda>(k', c). c = cb) (map (Pair k) cbs))) st"
  by (induction cbs) simp_all

lemma notifiedStates_all_sets:
  "notifiedStates cb (concat (map (\<lambda>(k, cbs). map (\<lambda>c. Notify c st) cbs) subs)) =
     replicate (length (filter (\<lambda>(k', c). c = cb)
        (concat (map (\<lambda>(k, cbs). map (Pair k) cbs) subs)))) st"
proof (induction subs)
  case Nil
  then show ?case by simp
next
  case (Cons p subs)
  obtain k cbs where p: "p = (k, cbs)" by (cases p)
  show ?case
    by (simp add: p notifiedStates_append notifiedStates_one_set[of cb st cbs k] Cons.IH
          replicate_add)
qed

lemma clear_fields:
  "cache (clear w) = Map.empty"
  "queryStates (clear w) = Map.empty"
  "queryConfigs (clear w) = Map.empty"
  "subscribers (clear w) = []"
  "trace (clear w) = trace w @
     concat (map (\<lambda>(k, cbs). map (\<lambda>cb. Notify cb idleState) cbs) (subscribers w))"
  by (simp_all add: clear_def Let_def foldl_clearInterval_fields split: option.split)

lemma clear_intervals:
  "intervals w = Some table \<Longrightarrow> intervals (clear w) = Some []"
  "intervals w = Some table \<Longrightarrow>
     timers (clear w) = filter (\<lambda>(h', k'). h' \<notin> snd ` set table) (timers w)"
  by (simp_all add: clear_def Let_def foldl_clearInterval_timers)

subsection \<open>Claims about the state at the start of a fetch\<close>

text \<open>
  C2. The claim: a fetch enters status \<open>Loading\<close> with \<open>isLoading\<close> only when the key
  has no data yet, and otherwise keeps status \<open>Success\<close> and the data while
  \<open>isFetching\<close> is set. The code tests the truthiness of the state's data
  (\<^verbatim>\<open>currentState?.data ? 'success' : 'loading'\<close>), so data that is \<^verbatim>\<open>0\<close>, \<^verbatim>\<open>''\<close>,
  \<^verbatim>\<open>false\<close> or \<^verbatim>\<open>null\<close> counts as no data. Here a query whose producer resolves with
  \<^verbatim>\<open>0\<close> has been fetched once (status \<open>Success\<close>, data \<^verbatim>\<open>0\<close>); the subscriber then sees
  the second fetch start in status \<open>Loading\<close> with \<open>isLoading\<close> set, the data \<^verbatim>\<open>0\<close>
  still in the state.
\<close>

theorem fetch_reloads_falsy_data:
  "data (getQueryState
      (runTimeout (subscribeToQuery ''count'' 7
         (useQuery ''count'' \<lparr>outcomes = (\<lambda>i. Resolved (JNum 0)), called = 0\<rparr> []
            (newVanillaQuery 0 False)))) ''count'') = JNum 0
   \<and> status (getQueryState
      (runTimeout (subscribeToQuery ''count'' 7
         (useQuery ''count'' \<lparr>outcomes = (\<lambda>i. Resolved (JNum 0)), called = 0\<rparr> []
            (newVanillaQuery 0 False)))) ''count'') = Success
   \<and> map (\<lambda>st. (status st, isLoading st, isFetching st, data st))
       (notifiedStates 7 (newEvents
          (runTimeout (subscribeToQuery ''count'' 7
             (useQuery ''count'' \<lparr>outcomes = (\<lambda>i. Resolved (JNum 0)), called = 0\<rparr> []
                (newVanillaQuery 0 False))))
          (snd (fetchQuery ''count''
             (runTimeout (subscribeToQuery ''count'' 7
                (useQuery ''count'' \<lparr>outcomes = (\<lambda>i. Resolved (JNum 0)), called = 0\<rparr> []
                   (newVanillaQuery 0 False))))))))
     = [(Loading, True, True, JNum 0), (Success, False, False, JNum 0)]"
  by code_simp

text \<open>
  C7. The claim: \<open>fetchCount\<close> grows by one with each top-level fetch, so it is \<open>k\<close>
  after \<open>k\<close> completed fetches, whether they succeeded or failed. The state written on
  success is a fresh object without the field (the state written on failure spreads the
  loading state and keeps it): after registration the count is 0, after one successful
  fetch it is absent, and after a second one it is absent again.
\<close>

theorem fetchCount_lost_on_success:
  "fetchCount (getQueryState
      (useQuery ''k'' \<lparr>outcomes = (\<lambda>i. Resolved (JStr ''x'')), called = 0\<rparr> []
         (newVanillaQuery 0 False)) ''k'') = Some 0
   \<and> fetchCount (getQueryState (snd (fetchQuery ''k''
      (useQuery ''k'' \<lparr>outcomes = (\<lambda>i. Resolved (JStr ''x'')), called = 0\<rparr> []
         (newVanillaQuery 0 False)))) ''k'') = None
   \<and> fetchCount (getQueryState (snd (fetchQuery ''k'' (snd (fetchQuery ''k''
      (useQuery ''k'' \<lparr>outcomes = (\<lambda>i. Resolved (JStr ''x'')), called = 0\<rparr> []
         (newVanillaQuery 0 False)))))) ''k'') = None"
  by code_simp

subsection \<open>Claims about registration\<close>

text \<open>
  C3. The claim: \<^verbatim>\<open>prefetchQuery\<close> stores the config and performs one fetch at once, also
  for a key never registered with \<^verbatim>\<open>useQuery\<close>. \<^verbatim>\<open>prefetchQuery\<close> does not seed the
  state of the key, and \<^verbatim>\<open>fetchQuery\<close> returns at \<^verbatim>\<open>if (!currentState) return\<close>: on a
  new engine the promise resolves with \<^verbatim>\<open>undefined\<close>, the producer has not been called,
  nothing is cached and the key has no state.
\<close>

theorem prefetch_unregistered_key_skips_fetch:
  "fst (prefetchQuery ''k'' \<lparr>outcomes = (\<lambda>i. Resolved (JStr ''x'')), called = 0\<rparr> []
          (newVanillaQuery 0 False)) = Resolved JUndefined
   \<and> invocations (snd (prefetchQuery ''k'' \<lparr>outcomes = (\<lambda>i. Resolved (JStr ''x'')), called = 0\<rparr> []
          (newVanillaQuery 0 False))) ''k'' = 0
   \<and> getQueryData (snd (prefetchQuery ''k'' \<lparr>outcomes = (\<lambda>i. Resolved (JStr ''x'')), called = 0\<rparr> []
          (newVanillaQuery 0 False))) ''k'' = JUndefined
   \<and> queryStates (snd (prefetchQuery ''k'' \<lparr>outcomes = (\<lambda>i. Resolved (JStr ''x'')), called = 0\<rparr> []
          (newVanillaQuery 0 False))) ''k'' = None"
  by code_simp

text \<open>
  C1. The claim: for every key with a registered config whose producer always rejects,
  \<^verbatim>\<open>fetchQuery\<close> calls the producer \<open>1 + n\<close> times and the state settles to status
  \<open>Error\<close>. \<^verbatim>\<open>prefetchQuery\<close> registers a config without seeding the state, and
  \<^verbatim>\<open>fetchQuery\<close> returns at \<^verbatim>\<open>if (!currentState) return\<close>: with the config registered
  (\<^verbatim>\<open>retry: 2\<close>) on a new engine, a \<^verbatim>\<open>fetchQuery\<close> for the key calls the producer not at
  all, and the state of the key stays idle with \<open>isError\<close> clear.
\<close>

theorem fetchQuery_without_state_calls_nothing:
  "map_option (\<lambda>config. retry (options config))
     (queryConfigs (snd (prefetchQuery ''k'' \<lparr>outcomes = (\<lambda>i. Rejected (JStr ''down'')), called = 0\<rparr>
        [Retry (RetryNum 2)] (newVanillaQuery 0 False))) ''k'') = Some (RetryNum 2)
   \<and> invocations (snd (fetchQuery ''k''
       (snd (prefetchQuery ''k'' \<lparr>outcomes = (\<lambda>i. Rejected (JStr ''down'')), called = 0\<rparr>
          [Retry (RetryNum 2)] (newVanillaQuery 0 False))))) ''k'' = 0
   \<and> status (getQueryState (snd (fetchQuery ''k''
       (snd (prefetchQuery ''k'' \<lparr>outcomes = (\<lambda>i. Rejected (JStr ''down'')), called = 0\<rparr>
          [Retry (RetryNum 2)] (newVanillaQuery 0 False))))) ''k'') = Idle
   \<and> isError (getQueryState (snd (fetchQuery ''k''
       (snd (prefetchQuery ''k'' \<lparr>outcomes = (\<lambda>i. Rejected (JStr ''down'')), called = 0\<rparr>
          [Retry (RetryNum 2)] (newVanillaQuery 0 False))))) ''k'') = False"
  by code_simp

text \<open>
  C8. The claim: a key has at most one interval timer; registering the key again or
  removing it cancels the timer scheduled before. \<^verbatim>\<open>useQuery\<close> overwrites the handle
  in \<^verbatim>\<open>intervals\<close> without \<^verbatim>\<open>clearInterval\<close>: after two registrations of one key with
  \<^verbatim>\<open>refetchInterval: 1000\<close> two timers run for it, the table knows the second only,
  and \<^verbatim>\<open>removeQueryData\<close> cancels that one and leaves the first running.
\<close>

theorem useQuery_leaks_interval:
  "timers (useQuery ''k'' \<lparr>outcomes = (\<lambda>i. Resolved (JStr ''x'')), called = 0\<rparr>
             [RefetchInterval (Some 1000)]
          (useQuery ''k'' \<lparr>outcomes = (\<lambda>i. Resolved (JStr ''x'')), called = 0\<rparr>
             [RefetchInterval (Some 1000)] (newVanillaQuery 0 False)))
     = [(0, ''k''), (1, ''k'')]
   \<and> intervals (useQuery ''k'' \<lparr>outcomes = (\<lambda>i. Resolved (JStr ''x'')), called = 0\<rparr>
             [RefetchInterval (Some 1000)]
          (useQuery ''k'' \<lparr>outcomes = (\<lambda>i. Resolved (JStr ''x'')), called = 0\<rparr>
             [RefetchInterval (Some 1000)] (newVanillaQuery 0 False)))
     = Some [(''k'', 1)]
   \<and> timers (removeQueryData ''k''
         (useQuery ''k'' \<lparr>outcomes = (\<lambda>i. Resolved (JStr ''x'')), called = 0\<rparr>
             [RefetchInterval (Some 1000)]
          (useQuery ''k'' \<lparr>outcomes = (\<lambda>i. Resolved (JStr ''x'')), called = 0\<rparr>
             [RefetchInterval (Some 1000)] (newVanillaQuery 0 False))))
     = [(0, ''k'')]"
  by code_simp

subsection \<open>Claims about mutations\<close>

text \<open>
  C5. The claim: \<^verbatim>\<open>mutate\<close> resolves with the data whenever the mutation succeeds. The
  code returns \<^verbatim>\<open>result.success && resultData ? resultData : Promise.reject(result.error)\<close>:
  a mutation function that resolves with \<^verbatim>\<open>undefined\<close> or with \<^verbatim>\<open>0\<close> leaves the
  state successful, and the promise of \<^verbatim>\<open>mutate\<close> rejects with \<^verbatim>\<open>undefined\<close>.
\<close>

theorem mutate_rejects_falsy_success:
  "fst (mutate variables (useMutation (\<lambda>v i. Resolved JUndefined) [])) = Rejected JUndefined
   \<and> isSuccessM (mutationState (snd (mutate variables (useMutation (\<lambda>v i. Resolved JUndefined) []))))
   \<and> fst (mutate variables (useMutation (\<lambda>v i. Resolved (JNum 0)) [])) = Rejected JUndefined
   \<and> dataM (mutationState (snd (mutate variables (useMutation (\<lambda>v i. Resolved (JNum 0)) [])))) = JNum 0"
  by (simp add: mutate_def useMutation_def defaultOptionsM_def performWithRetries_def invoke_def
        retryLoop_done setState_def idleStateM_def Let_def)

subsection \<open>Claims about clearing\<close>

text \<open>
  C9, as amended. \<^verbatim>\<open>clear()\<close> calls a subscribed callback with the idle state once for
  each key it is subscribed to, and with nothing else: exactly once when it is
  subscribed to one key. The idle state has status \<open>Idle\<close>, data \<^verbatim>\<open>undefined\<close>, error
  \<^verbatim>\<open>null\<close> and every flag cleared. Afterwards \<^verbatim>\<open>getQueryData\<close> returns \<^verbatim>\<open>undefined\<close> for
  every key, the cache, the states, the configs and the subscriber sets are empty, and
  every handle of the interval table is cancelled and the table is empty.
\<close>

theorem clear_resets_all:
  "notifiedStates cb (newEvents w (clear w)) =
     replicate (length (filter (\<lambda>(k', c). c = cb) (subscriptions w))) idleState
   \<and> (\<forall>k0. filter (\<lambda>(k', c). c = cb) (subscriptions w) = [(k0, cb)] \<longrightarrow>
         notifiedStates cb (newEvents w (clear w)) = [idleState])
   \<and> status idleState = Idle \<and> data idleState = JUndefined \<and> error idleState = JNull
   \<and> \<not> isLoading idleState \<and> \<not> isError idleState \<and> \<not> isSuccess idleState
   \<and> \<not> isFetching idleState
   \<and> getQueryData (clear w) k = JUndefined
   \<and> cache (clear w) = Map.empty \<and> queryStates (clear w) = Map.empty
   \<and> queryConfigs (clear w) = Map.empty \<and> subscribers (clear w) = []
   \<and> (\<forall>table. intervals w = Some table \<longrightarrow>
         intervals (clear w) = Some [] \<and> (\<forall>(k', h) \<in> set table. h \<notin> fst ` set (timers (clear w))))"
proof -
  have sent: "notifiedStates cb (newEvents w (clear w)) =
     replicate (length (filter (\<lambda>(k', c). c = cb) (subscriptions w))) idleState"
    by (simp add: newEvents_def clear_fields(5) subscriptions_def notifiedStates_all_sets)
  have once: "\<forall>k0. filter (\<lambda>(k', c). c = cb) (subscriptions w) = [(k0, cb)] \<longrightarrow>
         notifiedStates cb (newEvents w (clear w)) = [idleState]"
    by (simp add: sent)
  have idle: "status idleState = Idle \<and> data idleState = JUndefined \<and> error idleState = JNull
   \<and> \<not> isLoading idleState \<and> \<not> isError idleState \<and> \<not> isSuccess idleState
   \<and> \<not> isFetching idleState"
    by (simp add: idleState_def)
  have tables: "getQueryData (clear w) k = JUndefined
   \<and> cache (clear w) = Map.empty \<and> queryStates (clear w) = Map.empty
   \<and> queryConfigs (clear w) = Map.empty \<and> subscribers (clear w) = []"
    by (simp add: getQueryData_def clear_fields)
  have cancelled: "\<forall>table. intervals w = Some table \<longrightarrow>
         intervals (clear w) = Some [] \<and> (\<forall>(k', h) \<in> set table. h \<notin> fst ` set (timers (clear w)))"
  proof (intro allI impI conjI)
    fix table assume t: "intervals w = Some table"
    show "intervals (clear w) = Some []" by (rule clear_intervals(1)[OF t])
    show "\<forall>(k', h) \<in> set table. h \<notin> fst ` set (timers (clear w))"
      by (force simp: clear_intervals(2)[OF t])
  qed
  from sent once idle tables cancelled show ?thesis by blast
qed

theorem clear_resets_all_witness:
  "notifiedStates 7 (newEvents
      (runTimeout (subscribeToQuery ''a'' 7
         (useQuery ''a'' \<lparr>outcomes = (\<lambda>i. Resolved (JStr ''x'')), called = 0\<rparr>
            [RefetchInterval (Some 1000)] (newVanillaQuery 0 False))))
      (clear (runTimeout (subscribeToQuery ''a'' 7
         (useQuery ''a'' \<lparr>outcomes = (\<lambda>i. Resolved (JStr ''x'')), called = 0\<rparr>
            [RefetchInterval (Some 1000)] (newVanillaQuery 0 False)))))) = [idleState]
   \<and> 0 \<notin> fst ` set (timers (clear (runTimeout (subscribeToQuery ''a'' 7
         (useQuery ''a'' \<lparr>outcomes = (\<lambda>i. Resolved (JStr ''x'')), called = 0\<rparr>
            [RefetchInterval (Some 1000)] (newVanillaQuery 0 False))))))"
proof -
  let ?w = "runTimeout (subscribeToQuery ''a'' 7
         (useQuery ''a'' \<lparr>outcomes = (\<lambda>i. Resolved (JStr ''x'')), called = 0\<rparr>
            [RefetchInterval (Some 1000)] (newVanillaQuery 0 False)))"
  have subs: "filter (\<lambda>(k', c). c = 7) (subscriptions ?w) = [(''a'', 7)]" by code_simp
  have tab: "intervals ?w = Some [(''a'', 0)]" by code_simp
  from clear_resets_all[of 7 ?w "''a''"] subs
  have one: "notifiedStates 7 (newEvents ?w (clear ?w)) = [idleState]" by blast
  from clear_resets_all[of 7 ?w "''a''"] tab
  have "\<forall>(k', h) \<in> set [(''a'', 0::nat)]. h \<notin> fst ` set (timers (clear ?w))" by blast
  then have "0 \<notin> fst ` set (timers (clear ?w))" by simp
  with one show ?thesis by blast
qed

text \<open>The claim as stated gives every subscribed observer exactly one notification. A
  callback subscribed to the keys \<^verbatim>\<open>a\<close> and \<^verbatim>\<open>b\<close> is called twice.\<close>

theorem clear_notifies_per_key_counterexample:
  "subscriptions (subscribeToQuery ''b'' 0 (subscribeToQuery ''a'' 0 (newVanillaQuery 0 False)))
     = [(''a'', 0), (''b'', 0)]
   \<and> notifiedStates 0
       (newEvents (subscribeToQuery ''b'' 0 (subscribeToQuery ''a'' 0 (newVanillaQuery 0 False)))
          (clear (subscribeToQuery ''b'' 0 (subscribeToQuery ''a'' 0 (newVanillaQuery 0 False)))))
     = [idleState, idleState]"
  by code_simp

section \<open>Further properties\<close>

subsection \<open>How a mutation settles\<close>

lemma retryLoop_exhaust_same:
  "(\<And>i. i < nat (b - int a) \<Longrightarrow> outcomes fn (called fn + i) = Rejected E) \<Longrightarrow>
   \<exists>t'. retryLoop b d (Rejected E) a fn t =
          (Rejected E, fn\<lparr>called := called fn + nat (b - int a)\<rparr>, t')"
proof (induction "nat (b - int a)" arbitrary: a fn t)
  case 0
  then have "\<not> int a < b" by simp
  then show ?case using 0 by (subst retryLoop.simps) simp
next
  case (Suc n)
  let ?fn' = "fn\<lparr>called := called fn + 1\<rparr>"
  have go: "int a < b" using Suc.hyps(2) by linarith
  have n: "n = nat (b - int (a + 1))" using Suc.hyps(2) by linarith
  have first: "outcomes fn (called fn) = Rejected E" using Suc.prems[of 0] Suc.hyps(2) by simp
  have later: "\<And>i. i < nat (b - int (a + 1)) \<Longrightarrow> outcomes ?fn' (called ?fn' + i) = Rejected E"
  proof -
    fix i assume "i < nat (b - int (a + 1))"
    then have "Suc i < nat (b - int a)" by linarith
    from Suc.prems[OF this] show "outcomes ?fn' (called ?fn' + i) = Rejected E" by simp
  qed
  from Suc.hyps(1)[OF n later]
  obtain t' where run: "retryLoop b d (Rejected E) (a + 1) ?fn' (t + nat (delayFor d (a + 1))) =
      (Rejected E, ?fn'\<lparr>called := called ?fn' + nat (b - int (a + 1))\<rparr>, t')"
    by blast
  have "?fn'\<lparr>called := called ?fn' + nat (b - int (a + 1))\<rparr> =
        fn\<lparr>called := called fn + nat (b - int a)\<rparr>"
    using Suc.hyps(2) n by simp
  with run first go have "retryLoop b d (Rejected E) a fn t =
      (Rejected E, fn\<lparr>called := called fn + nat (b - int a)\<rparr>, t')"
    by (subst retryLoop.simps) (simp add: invoke_def Let_def)
  then show ?case by blast
qed

lemma performWithRetries_exhaust_same:
  assumes "\<And>i. i \<le> nat budget \<Longrightarrow> outcomes fn (called fn + i) = Rejected E"
  shows "\<exists>t. performWithRetries budget d fn =
           (Rejected E, fn\<lparr>called := called fn + 1 + nat budget\<rparr>, t)"
proof -
  let ?fn' = "fn\<lparr>called := called fn + 1\<rparr>"
  have first: "outcomes fn (called fn) = Rejected E" using assms[of 0] by simp
  have later: "\<And>i. i < nat (budget - int 0) \<Longrightarrow> outcomes ?fn' (called ?fn' + i) = Rejected E"
  proof -
    fix i assume "i < nat (budget - int 0)"
    then have "Suc i \<le> nat budget" by simp
    from assms[OF this] show "outcomes ?fn' (called ?fn' + i) = Rejected E" by simp
  qed
  from retryLoop_exhaust_same[where d = d and t = 0 and a = 0, OF later]
  obtain t where "retryLoop budget d (Rejected E) 0 ?fn' 0 =
      (Rejected E, ?fn'\<lparr>called := called ?fn' + nat (budget - int 0)\<rparr>, t)" by blast
  then show ?thesis using first by (simp add: performWithRetries_def invoke_def)
qed

lemma setState_fields [simp]:
  "mutationState (setState f m) = f (mutationState m)"
  "calls (setState f m) = calls m"
  "finalOptionsM (setState f m) = finalOptionsM m"
  "mutationFn (setState f m) = mutationFn m"
  "subscribersM (setState f m) = subscribersM m"
  by (simp_all add: setState_def Let_def)

lemma mutate_Resolved:
  assumes "performWithRetries (retryM (finalOptionsM m)) (retryDelayM (finalOptionsM m))
             \<lparr>outcomes = mutationFn m v, called = calls m\<rparr> = (Resolved d, fn2, waited)"
  shows "mutationState (snd (mutate v m)) =
           (mutationState m)\<lparr>isIdle := False, isLoadingM := False, isSuccessM := True,
              isErrorM := False, dataM := d, errorM := JNull, statusM := Success\<rparr>"
    and "calls (snd (mutate v m)) = called fn2"
    and "\<not> throws (onSuccessM (finalOptionsM m)) \<Longrightarrow> \<not> throws (onSettledM (finalOptionsM m)) \<Longrightarrow>
         fst (mutate v m) = (if truthy d then Resolved d else Rejected JUndefined)"
proof -
  show "mutationState (snd (mutate v m)) =
           (mutationState m)\<lparr>isIdle := False, isLoadingM := False, isSuccessM := True,
              isErrorM := False, dataM := d, errorM := JNull, statusM := Success\<rparr>"
    using assms by (simp add: mutate_def Let_def case_prod_beta)
  show "calls (snd (mutate v m)) = called fn2"
    using assms by (simp add: mutate_def Let_def case_prod_beta)
  assume quiet: "\<not> throws (onSuccessM (finalOptionsM m))" "\<not> throws (onSettledM (finalOptionsM m))"
  show "fst (mutate v m) = (if truthy d then Resolved d else Rejected JUndefined)"
    using assms quiet
    by (simp add: mutate_def Let_def case_prod_beta runCallbacks_no_throw)
qed

lemma mutate_Rejected:
  assumes "performWithRetries (retryM (finalOptionsM m)) (retryDelayM (finalOptionsM m))
             \<lparr>outcomes = mutationFn m v, called = calls m\<rparr> = (Rejected e, fn2, waited)"
  shows "mutationState (snd (mutate v m)) =
           (mutationState m)\<lparr>isIdle := False, isLoadingM := False, isSuccessM := False,
              isErrorM := True, dataM := JUndefined, errorM := e, statusM := Error\<rparr>"
    and "calls (snd (mutate v m)) = called fn2"
    and "\<not> throws (onErrorM (finalOptionsM m)) \<Longrightarrow> \<not> throws (onSettledM (finalOptionsM m)) \<Longrightarrow>
         fst (mutate v m) = Rejected e"
proof -
  show "mutationState (snd (mutate v m)) =
           (mutationState m)\<lparr>isIdle := False, isLoadingM := False, isSuccessM := False,
              isErrorM := True, dataM := JUndefined, errorM := e, statusM := Error\<rparr>"
    using assms by (simp add: mutate_def Let_def case_prod_beta)
  show "calls (snd (mutate v m)) = called fn2"
    using assms by (simp add: mutate_def Let_def case_prod_beta)
  assume quiet: "\<not> throws (onErrorM (finalOptionsM m))" "\<not> throws (onSettledM (finalOptionsM m))"
  have q': "\<not> throws (if truthy e then onErrorM (finalOptionsM m) else None)"
    using quiet(1) by simp
  show "fst (mutate v m) = Rejected e"
    using assms q' quiet(2)
    by (simp add: mutate_def Let_def case_prod_beta runCallbacks_no_throw del: if_split)
qed

text \<open>
  When the callbacks of a mutation do not throw: if a call within the retry budget is
  the first to succeed and its data is truthy, \<^verbatim>\<open>mutate\<close> resolves with the data and the
  state is successful; if the mutation function rejects with \<open>E\<close> at every call the
  budget allows, \<^verbatim>\<open>mutate\<close> rejects with \<open>E\<close>, the state has \<open>isErrorM\<close> set and holds
  \<open>E\<close>, and the function was called once and then once per retry.
\<close>

theorem mutate_settles:
  assumes "\<not> throws (onSuccessM (finalOptionsM m))"
      and "\<not> throws (onErrorM (finalOptionsM m))"
      and "\<not> throws (onSettledM (finalOptionsM m))"
  shows "(\<forall>j d. mutationFn m v (calls m + j) = Resolved d
             \<and> (\<forall>i<j. \<not> success (mutationFn m v (calls m + i)))
             \<and> (j = 0 \<or> int j \<le> retryM (finalOptionsM m))
             \<and> truthy d
           \<longrightarrow> fst (mutate v m) = Resolved d
             \<and> isSuccessM (mutationState (snd (mutate v m)))
             \<and> dataM (mutationState (snd (mutate v m))) = d)
       \<and> (\<forall>E. (\<forall>i. i \<le> nat (retryM (finalOptionsM m)) \<longrightarrow> mutationFn m v (calls m + i) = Rejected E)
           \<longrightarrow> fst (mutate v m) = Rejected E
             \<and> isErrorM (mutationState (snd (mutate v m)))
             \<and> errorM (mutationState (snd (mutate v m))) = E
             \<and> calls (snd (mutate v m)) = calls m + 1 + nat (retryM (finalOptionsM m)))"
proof (intro conjI allI impI)
  fix j d
  assume h: "mutationFn m v (calls m + j) = Resolved d
             \<and> (\<forall>i<j. \<not> success (mutationFn m v (calls m + i)))
             \<and> (j = 0 \<or> int j \<le> retryM (finalOptionsM m))
             \<and> truthy d"
  let ?p = "\<lparr>outcomes = mutationFn m v, called = calls m\<rparr>"
  have hit: "outcomes ?p (called ?p + j) = Resolved d" using h by simp
  have before: "\<And>i. i < j \<Longrightarrow> \<not> success (outcomes ?p (called ?p + i))" using h by simp
  have bound: "j = 0 \<or> int j \<le> retryM (finalOptionsM m)" using h by simp
  from performWithRetries_success[OF hit before bound]
  obtain t where run: "performWithRetries (retryM (finalOptionsM m)) (retryDelayM (finalOptionsM m)) ?p
      = (Resolved d, ?p\<lparr>called := called ?p + j + 1\<rparr>, t)" by blast
  show "fst (mutate v m) = Resolved d"
    using mutate_Resolved(3)[OF run assms(1,3)] h by simp
  show "isSuccessM (mutationState (snd (mutate v m)))"
    by (simp add: mutate_Resolved(1)[OF run])
  show "dataM (mutationState (snd (mutate v m))) = d"
    by (simp add: mutate_Resolved(1)[OF run])
next
  fix E
  assume h: "\<forall>i. i \<le> nat (retryM (finalOptionsM m)) \<longrightarrow> mutationFn m v (calls m + i) = Rejected E"
  let ?p = "\<lparr>outcomes = mutationFn m v, called = calls m\<rparr>"
  have all: "\<And>i. i \<le> nat (retryM (finalOptionsM m)) \<Longrightarrow> outcomes ?p (called ?p + i) = Rejected E"
    using h by simp
  from performWithRetries_exhaust_same[OF all]
  obtain t where run: "performWithRetries (retryM (finalOptionsM m)) (retryDelayM (finalOptionsM m)) ?p
      = (Rejected E, ?p\<lparr>called := called ?p + 1 + nat (retryM (finalOptionsM m))\<rparr>, t)" by blast
  show "fst (mutate v m) = Rejected E"
    using mutate_Rejected(3)[OF run assms(2,3)] by simp
  show "isErrorM (mutationState (snd (mutate v m)))"
    by (simp add: mutate_Rejected(1)[OF run])
  show "errorM (mutationState (snd (mutate v m))) = E"
    by (simp add: mutate_Rejected(1)[OF run])
  show "calls (snd (mutate v m)) = calls m + 1 + nat (retryM (finalOptionsM m))"
    by (simp add: mutate_Rejected(2)[OF run])
qed

theorem mutate_settles_witness:
  "fst (mutate (JNum 1) (useMutation (\<lambda>v i. Rejected (JStr ''E'')) [RetryM 2])) = Rejected (JStr ''E'')
   \<and> isErrorM (mutationState (snd (mutate (JNum 1) (useMutation (\<lambda>v i. Rejected (JStr ''E'')) [RetryM 2]))))
   \<and> calls (snd (mutate (JNum 1) (useMutation (\<lambda>v i. Rejected (JStr ''E'')) [RetryM 2]))) = 3
   \<and> fst (mutate (JNum 1) (useMutation (\<lambda>v i. Resolved (JStr ''ok'')) [OnSuccessM (Some (Returns JUndefined))]))
       = Resolved (JStr ''ok'')"
proof -
  let ?m = "useMutation (\<lambda>v i. Rejected (JStr ''E'')) [RetryM 2]"
  let ?m' = "useMutation (\<lambda>v i. Resolved (JStr ''ok'')) [OnSuccessM (Some (Returns JUndefined))]"
  have quiet: "\<not> throws (onSuccessM (finalOptionsM ?m))" "\<not> throws (onErrorM (finalOptionsM ?m))"
      "\<not> throws (onSettledM (finalOptionsM ?m))"
    by (simp_all add: useMutation_def defaultOptionsM_def)
  have quiet': "\<not> throws (onSuccessM (finalOptionsM ?m'))" "\<not> throws (onErrorM (finalOptionsM ?m'))"
      "\<not> throws (onSettledM (finalOptionsM ?m'))"
    by (simp_all add: useMutation_def defaultOptionsM_def)
  have fails: "\<forall>i. i \<le> nat (retryM (finalOptionsM ?m)) \<longrightarrow>
      mutationFn ?m (JNum 1) (calls ?m + i) = Rejected (JStr ''E'')"
    by (simp add: useMutation_def)
  have budget: "calls ?m + 1 + nat (retryM (finalOptionsM ?m)) = 3"
    by (simp add: useMutation_def defaultOptionsM_def)
  have hit: "mutationFn ?m' (JNum 1) (calls ?m' + 0) = Resolved (JStr ''ok'')
             \<and> (\<forall>i<0. \<not> success (mutationFn ?m' (JNum 1) (calls ?m' + i)))
             \<and> ((0::nat) = 0 \<or> int 0 \<le> retryM (finalOptionsM ?m'))
             \<and> truthy (JStr ''ok'')"
    by (simp add: useMutation_def)
  from mutate_settles[OF quiet, of "JNum 1"] fails
  have a: "fst (mutate (JNum 1) ?m) = Rejected (JStr ''E'')
         \<and> isErrorM (mutationState (snd (mutate (JNum 1) ?m)))
         \<and> calls (snd (mutate (JNum 1) ?m)) = calls ?m + 1 + nat (retryM (finalOptionsM ?m))"
    by blast
  from mutate_settles[OF quiet', of "JNum 1"] hit
  have b: "fst (mutate (JNum 1) ?m') = Resolved (JStr ''ok'')" by blast
  from a b budget show ?thesis by simp
qed

subsection \<open>What a fetch touches, and the rest of the interface\<close>

lemma fetchQuery_frame:
  "timeouts (snd (fetchQuery k w)) = timeouts w"
  "timers (snd (fetchQuery k w)) = timers w"
  "intervals (snd (fetchQuery k w)) = intervals w"
  "subscribers (snd (fetchQuery k w)) = subscribers w"
  by (simp_all add: fetchQuery_def settleSuccess_def settleError_def Let_def case_prod_beta
        split: option.split settled.split)

lemma fetchQuery_first_events:
  assumes "queryConfigs w k = Some config" and "queryStates w k = Some st"
      and "map_of (subscribers w) k = Some cbs"
  shows "take (length cbs) (newEvents w (snd (fetchQuery k w))) =
           map (\<lambda>cb. Notify cb (loadingState st)) cbs"
  using assms
  by (simp add: fetchQuery_def settleSuccess_def settleError_def notifySubscribers_def newEvents_def
        Let_def case_prod_beta split: settled.split)

text \<open>
  The state a fetch starts with, as every subscriber of the key is told first: the data
  and the error of the current state are kept and \<open>isFetching\<close> is set; with truthy data
  the status is \<open>Success\<close> and \<open>isLoading\<close> is clear, with data \<^verbatim>\<open>undefined\<close> the status
  is \<open>Loading\<close> and \<open>isLoading\<close> is set.
\<close>

theorem fetchQuery_starts_stale_while_revalidate:
  assumes "queryConfigs w k = Some config" and "queryStates w k = Some st"
      and "map_of (subscribers w) k = Some cbs"
  shows "take (length cbs) (newEvents w (snd (fetchQuery k w))) =
           map (\<lambda>cb. Notify cb (loadingState st)) cbs
       \<and> data (loadingState st) = data st
       \<and> isFetching (loadingState st)
       \<and> (truthy (data st) \<longrightarrow> status (loadingState st) = Success \<and> \<not> isLoading (loadingState st))
       \<and> (data st = JUndefined \<longrightarrow> status (loadingState st) = Loading \<and> isLoading (loadingState st))"
  using fetchQuery_first_events[OF assms] by (simp add: loadingState_def)

theorem fetchQuery_starts_stale_while_revalidate_witness:
  "take 1 (newEvents
      (runTimeout (subscribeToQuery ''users'' 7
         (useQuery ''users'' \<lparr>outcomes = (\<lambda>i. Resolved (JStr ''v'')), called = 0\<rparr> []
            (newVanillaQuery 0 False))))
      (snd (fetchQuery ''users''
         (runTimeout (subscribeToQuery ''users'' 7
            (useQuery ''users'' \<lparr>outcomes = (\<lambda>i. Resolved (JStr ''v'')), called = 0\<rparr> []
               (newVanillaQuery 0 False)))))))
   = [Notify 7 \<lparr>data = JStr ''v'', error = JNull, status = Success, isLoading = False,
        isError = False, isSuccess = True, isFetching = True,
        dataUpdatedAt = Some 0, errorUpdatedAt = None, fetchCount = Some 1\<rparr>]"
proof -
  let ?p = "\<lparr>outcomes = (\<lambda>i. Resolved (JStr ''v'')), called = 0\<rparr>"
  let ?w = "runTimeout (subscribeToQuery ''users'' 7
         (useQuery ''users'' ?p [] (newVanillaQuery 0 False)))"
  let ?st = "\<lparr>data = JStr ''v'', error = JNull, status = Success, isLoading = False,
        isError = False, isSuccess = True, isFetching = False,
        dataUpdatedAt = Some 0, errorUpdatedAt = None, fetchCount = None\<rparr>"
  have c: "queryConfigs ?w ''users'' = Some \<lparr>queryFn = ?p\<lparr>called := 1\<rparr>, options = defaultOptions\<rparr>"
    by (simp add: runTimeout_def subscribeToQuery_def useQuery_def newVanillaQuery_def
          finalOptions_def defaultOptions_def fetchQuery_def performWithRetries_def invoke_def
          retryLoop_done settleSuccess_def Let_def)
  have s: "queryStates ?w ''users'' = Some ?st" by code_simp
  have subs: "map_of (subscribers ?w) ''users'' = Some [7]" by code_simp
  from fetchQuery_starts_stale_while_revalidate[OF c s subs]
  show ?thesis by (simp add: loadingState_def)
qed

text \<open>
  A fetch whose producer fails at every call the budget allows adds exactly one to the
  fetch count of the state it started from, however many retries it made.
\<close>

theorem failed_fetch_counts_once:
  assumes "queryConfigs w k = Some config" and "queryStates w k = Some st"
      and "\<forall>i. i \<le> nat (maxRetries (retry (options config))) \<longrightarrow>
             \<not> success (outcomes (queryFn config) (called (queryFn config) + i))"
  shows "fetchCount (getQueryState (snd (fetchQuery k w)) k) =
           Some ((case fetchCount st of None \<Rightarrow> 0 | Some n \<Rightarrow> n) + 1)"
proof -
  from fetchQuery_fails[OF assms(1,2)] assms(3)
  obtain e where "queryStates (snd (fetchQuery k w)) = (queryStates w)(k \<mapsto>
        (loadingState st)\<lparr>status := Error, error := e,
           isLoading := False, isError := True, isSuccess := False,
           isFetching := False, errorUpdatedAt := Some (now (snd (fetchQuery k w)))\<rparr>)"
    by blast
  then show ?thesis by (simp add: getQueryState_def loadingState_def)
qed

theorem failed_fetch_counts_once_witness:
  "fetchCount (getQueryState (snd (fetchQuery ''users''
      (useQuery ''users'' \<lparr>outcomes = (\<lambda>i. Rejected (JStr ''down'')), called = 0\<rparr>
         [Retry (RetryNum 2)] (newVanillaQuery 0 False)))) ''users'') = Some 1"
proof -
  let ?p = "\<lparr>outcomes = (\<lambda>i. Rejected (JStr ''down'')), called = 0\<rparr>"
  let ?w = "useQuery ''users'' ?p [Retry (RetryNum 2)] (newVanillaQuery 0 False)"
  let ?c = "\<lparr>queryFn = ?p, options = finalOptions [Retry (RetryNum 2)]\<rparr>"
  let ?s = "idleState\<lparr>dataUpdatedAt := Some 0, errorUpdatedAt := Some 0, fetchCount := Some 0\<rparr>"
  have c: "queryConfigs ?w ''users'' = Some ?c"
    by (simp add: useQuery_def newVanillaQuery_def finalOptions_def defaultOptions_def Let_def)
  have s: "queryStates ?w ''users'' = Some ?s"
    by (simp add: useQuery_def newVanillaQuery_def finalOptions_def defaultOptions_def Let_def)
  have fails: "\<forall>i. i \<le> nat (maxRetries (retry (options ?c))) \<longrightarrow>
             \<not> success (outcomes (queryFn ?c) (called (queryFn ?c) + i))" by simp
  from failed_fetch_counts_once[OF c s fails] show ?thesis by simp
qed

text \<open>
  \<^verbatim>\<open>prefetchQuery\<close> stores the config that \<^verbatim>\<open>useQuery\<close> stores for the same arguments and
  schedules nothing: no deferred task, no timer, no entry of the interval table. For a
  key that has a state, a producer that succeeds at once is called exactly once and its
  data is cached.
\<close>

theorem prefetchQuery_registered_key:
  "queryConfigs (useQuery k fn given w) k = Some \<lparr>queryFn = fn, options = finalOptions given\<rparr>
   \<and> (\<exists>fn'. queryConfigs (snd (prefetchQuery k fn given w)) k =
               Some \<lparr>queryFn = fn', options = finalOptions given\<rparr>)
   \<and> timeouts (snd (prefetchQuery k fn given w)) = timeouts w
   \<and> timers (snd (prefetchQuery k fn given w)) = timers w
   \<and> intervals (snd (prefetchQuery k fn given w)) = intervals w
   \<and> (\<forall>st d. queryStates w k = Some st \<and> outcomes fn (called fn) = Resolved d \<longrightarrow>
         invocations (snd (prefetchQuery k fn given w)) k = called fn + 1
       \<and> getQueryData (snd (prefetchQuery k fn given w)) k = d)"
proof (intro conjI allI impI)
  show "queryConfigs (useQuery k fn given w) k = Some \<lparr>queryFn = fn, options = finalOptions given\<rparr>"
    by (simp add: useQuery_def setInterval_def Let_def case_prod_beta)
  let ?w0 = "w\<lparr>queryConfigs := (queryConfigs w)(k \<mapsto> \<lparr>queryFn = fn, options = finalOptions given\<rparr>)\<rparr>"
  have pre: "prefetchQuery k fn given w = fetchQuery k ?w0" by (simp add: prefetchQuery_def)
  show "\<exists>fn'. queryConfigs (snd (prefetchQuery k fn given w)) k =
               Some \<lparr>queryFn = fn', options = finalOptions given\<rparr>"
    by (simp add: pre fetchQuery_def settleSuccess_def settleError_def Let_def case_prod_beta
          split: option.split settled.split)
  show "timeouts (snd (prefetchQuery k fn given w)) = timeouts w"
    by (simp add: pre fetchQuery_frame)
  show "timers (snd (prefetchQuery k fn given w)) = timers w"
    by (simp add: pre fetchQuery_frame)
  show "intervals (snd (prefetchQuery k fn given w)) = intervals w"
    by (simp add: pre fetchQuery_frame)
  fix st d
  assume h: "queryStates w k = Some st \<and> outcomes fn (called fn) = Resolved d"
  let ?c = "\<lparr>queryFn = fn, options = finalOptions given\<rparr>"
  have c: "queryConfigs ?w0 k = Some ?c" by simp
  have s: "queryStates ?w0 k = Some st" using h by simp
  have hit: "outcomes (queryFn ?c) (called (queryFn ?c) + 0) = Resolved d" using h by simp
  from fetchQuery_succeeds[OF c s hit]
  obtain t where got:
    "cache (snd (fetchQuery k ?w0)) = (cache ?w0)(k \<mapsto> \<lparr>entryData = d, timestamp = t\<rparr>)"
    "queryConfigs (snd (fetchQuery k ?w0)) = (queryConfigs ?w0)(k \<mapsto>
        ?c\<lparr>queryFn := (queryFn ?c)\<lparr>called := called (queryFn ?c) + 0 + 1\<rparr>\<rparr>)"
    by auto
  show "invocations (snd (prefetchQuery k fn given w)) k = called fn + 1"
    unfolding pre by (simp add: invocations_def got(2))
  show "getQueryData (snd (prefetchQuery k fn given w)) k = d"
    unfolding pre by (simp add: getQueryData_def got(1))
qed

theorem prefetchQuery_registered_key_witness:
  "invocations (snd (prefetchQuery ''users'' \<lparr>outcomes = (\<lambda>i. Resolved (JStr ''v'')), called = 0\<rparr> []
      (useQuery ''users'' \<lparr>outcomes = (\<lambda>i. Rejected JNull), called = 0\<rparr> [Enabled False]
         (newVanillaQuery 0 False)))) ''users'' = 1
   \<and> getQueryData (snd (prefetchQuery ''users'' \<lparr>outcomes = (\<lambda>i. Resolved (JStr ''v'')), called = 0\<rparr> []
      (useQuery ''users'' \<lparr>outcomes = (\<lambda>i. Rejected JNull), called = 0\<rparr> [Enabled False]
         (newVanillaQuery 0 False)))) ''users'' = JStr ''v''"
proof -
  let ?p = "\<lparr>outcomes = (\<lambda>i. Resolved (JStr ''v'')), called = 0\<rparr>"
  let ?w = "useQuery ''users'' \<lparr>outcomes = (\<lambda>i. Rejected JNull), called = 0\<rparr> [Enabled False]
         (newVanillaQuery 0 False)"
  let ?s = "idleState\<lparr>dataUpdatedAt := Some 0, errorUpdatedAt := Some 0, fetchCount := Some 0\<rparr>"
  have s: "queryStates ?w ''users'' = Some ?s \<and> outcomes ?p (called ?p) = Resolved (JStr ''v'')"
    by (simp add: useQuery_def newVanillaQuery_def finalOptions_def defaultOptions_def Let_def)
  from prefetchQuery_registered_key[of "''users''" ?p "[]" ?w] s
  have "invocations (snd (prefetchQuery ''users'' ?p [] ?w)) ''users'' = called ?p + 1
       \<and> getQueryData (snd (prefetchQuery ''users'' ?p [] ?w)) ''users'' = JStr ''v''"
    by blast
  then show ?thesis by simp
qed

text \<open>
  \<^verbatim>\<open>removeQueryData\<close> cancels the interval handle the table holds for the key and removes
  the key from the cache, the states, the configs, the subscribers and the table.
\<close>

theorem removeQueryData_cancels_interval:
  assumes "intervals w = Some table" and "map_of table k = Some h"
  shows "h \<notin> fst ` set (timers (removeQueryData k w))
       \<and> intervals (removeQueryData k w) = Some (AList.delete k table)
       \<and> map_of (AList.delete k table) k = None
       \<and> cache (removeQueryData k w) k = None
       \<and> queryStates (removeQueryData k w) k = None
       \<and> queryConfigs (removeQueryData k w) k = None
       \<and> map_of (subscribers (removeQueryData k w)) k = None"
  using assms
  by (auto simp: removeQueryData_def Let_def clearInterval_def delete_conv')

theorem removeQueryData_cancels_interval_witness:
  "0 \<notin> fst ` set (timers (removeQueryData ''k''
      (useQuery ''k'' \<lparr>outcomes = (\<lambda>i. Resolved (JStr ''x'')), called = 0\<rparr>
         [RefetchInterval (Some 1000)] (newVanillaQuery 0 False))))
   \<and> timers (useQuery ''k'' \<lparr>outcomes = (\<lambda>i. Resolved (JStr ''x'')), called = 0\<rparr>
         [RefetchInterval (Some 1000)] (newVanillaQuery 0 False)) = [(0, ''k'')]"
proof -
  let ?w = "useQuery ''k'' \<lparr>outcomes = (\<lambda>i. Resolved (JStr ''x'')), called = 0\<rparr>
         [RefetchInterval (Some 1000)] (newVanillaQuery 0 False)"
  have t: "intervals ?w = Some [(''k'', 0)]" by code_simp
  have h: "map_of [(''k'', 0::nat)] ''k'' = Some 0" by simp
  have now: "timers ?w = [(0, ''k'')]" by code_simp
  from removeQueryData_cancels_interval[OF t h] now show ?thesis by blast
qed


text \<open>
  \<^verbatim>\<open>subscribeToQuery\<close> calls the new callback at once, with the current state of the key
  and before anything else happens, and the callback is in the subscriber set of the
  key afterwards.
\<close>

theorem subscribeToQuery_immediate:
  "newEvents w (subscribeToQuery k cb w) = [Notify cb (getQueryState w k)]
   \<and> (\<exists>cbs. map_of (subscribers (subscribeToQuery k cb w)) k = Some cbs \<and> cb \<in> set cbs)"
  by (simp add: subscribeToQuery_def newEvents_def Let_def update_conv' split: option.split)

text \<open>
  \<^verbatim>\<open>setQueryData\<close> returns the data, caches it, writes a success state holding it, tells
  the subscribers of the key that state, and calls no producer.
\<close>

theorem setQueryData_writes:
  "fst (setQueryData k d w) = d
   \<and> getQueryData (snd (setQueryData k d w)) k = d
   \<and> status (getQueryState (snd (setQueryData k d w)) k) = Success
   \<and> isSuccess (getQueryState (snd (setQueryData k d w)) k)
   \<and> data (getQueryState (snd (setQueryData k d w)) k) = d
   \<and> newEvents w (snd (setQueryData k d w)) =
       map (\<lambda>cb. Notify cb (getQueryState (snd (setQueryData k d w)) k))
         (case map_of (subscribers w) k of None \<Rightarrow> [] | Some cbs \<Rightarrow> cbs)
   \<and> invocations (snd (setQueryData k d w)) k = invocations w k"
  by (simp add: setQueryData_def getQueryData_def getQueryState_def notifySubscribers_def
        newEvents_def invocations_def Let_def split: option.split)

end
